theory Spec2Isabelle
  imports Main
begin

section \<open>Data model of the save document\<close>

text \<open>
  The handlers of \<^verbatim>\<open>server/Commands.py\<close> work on the JSON save of one user: a list of
  character dicts held in \<^verbatim>\<open>session.player_data["characters"]\<close>. Each dict with a fixed
  set of keys is a record here. A key that is absent from a dict is represented by the
  default that the handlers' \<^verbatim>\<open>.get(key, default)\<close> and \<^verbatim>\<open>setdefault(key, default)\<close>
  calls supply for it, so \<^verbatim>\<open>setdefault\<close> on an absent key does not change the modelled
  document. Keys that no modelled handler reads or writes (the appearance fields, for
  instance) are left out. Python integers are unbounded: \<^typ>\<open>int\<close>.

  The records are values. In the running server \<^verbatim>\<open>item.copy()\<close> is a shallow copy, so an
  equipped item and the inventory item it was copied from share their rune list until the
  save is written and loaded again. The model describes a save in which no two items share
  a list, as it is after loading the JSON file. The rune handler writes the same rune into
  the equipped item and into the matching inventory item, so the model and the running
  server can differ only where a rune list is shared with yet another item.
\<close>

record gear =
  gearID :: int
  tier :: int
  runes :: "int list"
  colors :: "int list"

record charm =
  charmID :: int
  count :: int

record material =
  materialID :: int
  mat_count :: int

record consumable =
  consumableID :: int
  con_count :: int

record forge =
  hasSession :: bool
  primary :: int
  secondary :: int
  status :: int
  duration :: int
  var_8 :: int
  usedlist :: int
  var_2675 :: int
  var_2316 :: int
  var_2434 :: bool

record gearset =
  gs_name :: string
  slots :: "int list"

record mastery_slot =
  nodeIdx :: int
  filled :: bool
  points :: int

record character =
  name :: string
  equippedGears :: "gear list"
  inventoryGears :: "gear list"
  charms :: "charm list"
  materials :: "material list"
  consumables :: "consumable list"
  magicForge :: forge
  mammothIdols :: int
  activeAbilities :: "int list"
  gearSets :: "gearset list"
  MasterClass :: int
  Mastery :: "(int \<times> mastery_slot list) list"

text \<open>
  What a handler writes with \<^verbatim>\<open>BitBuffer\<close> is kept as the sequence of writer calls, each
  with its value and, where the call takes one, its bit width; a packet is its type code
  and that sequence. A handler that echoes \<^verbatim>\<open>raw_data\<close> sends the request's bytes.
\<close>

datatype field =
  Method4 int
| Bits int nat
| Method6 int nat
| Method91 int
| AppendBits int nat

datatype packet =
  Packet nat "field list"
| Raw "nat list"

datatype py_error = IndexError | NameError | TruncatedPacket

text \<open>
  How a handler call ends: it reaches the end of its body (\<open>Completed\<close>), leaves through
  one of its early \<^verbatim>\<open>return\<close> statements (\<open>Returned\<close>), or raises. The session that comes
  with the outcome carries what was mutated, written and sent up to that point.
\<close>

datatype outcome = Completed | Returned | Raised py_error

text \<open>
  The session: the in-memory save, the active character's name, the log of documents
  written by \<^verbatim>\<open>json.dump\<close> and the log of packets given to \<^verbatim>\<open>session.conn.sendall\<close>
  (both oldest first).
\<close>

record session =
  player_data :: "character list"
  current_character :: string
  saved :: "character list list"
  sent :: "packet list"

definition persist :: "session \<Rightarrow> session" where
  "persist s = s\<lparr>saved := saved s @ [player_data s]\<rparr>"

definition sendall :: "packet \<Rightarrow> session \<Rightarrow> session" where
  "sendall p s = s\<lparr>sent := sent s @ [p]\<rparr>"

text \<open>
  Constants of \<^verbatim>\<open>constants.py\<close>, which is not part of the sources. The bit widths, the
  forge status codes, the consumable ids and the mastery width function \<^verbatim>\<open>method_277\<close> are
  parameters of the handlers.
\<close>

record constants =
  GEARTYPE_BITSTOSEND :: nat
  GearType_const_176 :: nat
  class_64_const_101 :: nat
  class_1_const_765 :: nat
  GAME_CONST_209 :: nat
  CLASS_118_CONST_127 :: nat
  class_1_const_254 :: nat
  method_277 :: "nat \<Rightarrow> nat"
  class_111_const_264 :: int
  class_111_const_286 :: int
  class_3_var_1415 :: int
  class_3_var_2082 :: int
  class_3_var_1374 :: int
  class_3_var_1462 :: int

text \<open>Index of the first element that satisfies a test: the \<^verbatim>\<open>for ... break\<close> scans.\<close>

fun find_index :: "('a \<Rightarrow> bool) \<Rightarrow> 'a list \<Rightarrow> nat option" where
  "find_index P [] = None"
| "find_index P (x # xs) =
     (if P x then Some 0 else map_option Suc (find_index P xs))"

definition find_char :: "string \<Rightarrow> character list \<Rightarrow> nat option" where
  "find_char nm chars = find_index (\<lambda>c. name c = nm) chars"

text \<open>Python list indexing: a negative index counts from the end, out of range raises.\<close>

definition py_index :: "int \<Rightarrow> nat \<Rightarrow> nat option" where
  "py_index i n =
     (if 0 \<le> i \<and> i < int n then Some (nat i)
      else if i < 0 \<and> - int n \<le> i then Some (nat (int n + i))
      else None)"

text \<open>
  Modelled from the spec: \<^verbatim>\<open>EntType.MAX_SLOTS\<close> is declared in \<^verbatim>\<open>constants.py\<close>, which is not
  part of the sources. The spec gives a character 6 gear slots, the slot count being
  total-slots-minus-one, and the handlers comment \<^verbatim>\<open>EntType.MAX_SLOTS - 1\<close> as "6 slots".
\<close>

definition MAX_SLOTS :: nat where
  "MAX_SLOTS = 7"

text \<open>
  Modelled from the spec: \<^verbatim>\<open>class_118.const_43\<close> is declared in \<^verbatim>\<open>constants.py\<close>; the spec
  fixes the node count of a mastery tree at 27, and the handler comments it as "27 slots".
\<close>

definition class_118_const_43 :: nat where
  "class_118_const_43 = 27"

section \<open>Single gear equip (0x31)\<close>

definition default_gear :: gear where
  "default_gear = \<lparr>gearID = 0, tier = 0, runes = [0, 0, 0], colors = [0, 0]\<rparr>"

text \<open>\<^verbatim>\<open>while len(eq) < n: eq.append({"gearID": 0, ...})\<close>\<close>

definition pad_to :: "nat \<Rightarrow> gear list \<Rightarrow> gear list" where
  "pad_to n eq = eq @ replicate (n - length eq) default_gear"

text \<open>
  The arguments after the constants are the fields the handler decodes from the payload,
  under the names the source gives them. When no character matches, the loop ends without
  binding \<^verbatim>\<open>inv\<close>: the save is written and the \<^verbatim>\<open>print\<close> that follows raises.
\<close>

definition handle_gear_packet ::
  "constants \<Rightarrow> int \<Rightarrow> int \<Rightarrow> int \<Rightarrow> int \<Rightarrow> session \<Rightarrow> outcome \<times> session" where
  "handle_gear_packet K entity_id prefix slot1 gear_id s =
     (let nbits = 2 * (prefix + 1);
          slot = slot1 - 1 in
      (case find_char (current_character s) (player_data s) of
        None \<Rightarrow> (Raised NameError, persist s)
      | Some ci \<Rightarrow>
          (let c = player_data s ! ci;
               inv = inventoryGears c;
               eq = pad_to 6 (equippedGears c);
               gear_data =
                 (case find (\<lambda>item. gearID item = gear_id) inv of
                    Some item \<Rightarrow> item
                  | None \<Rightarrow> \<lparr>gearID = gear_id, tier = 0, runes = [0, 0, 0], colors = [0, 0]\<rparr>)
           in (case py_index slot (length eq) of
                None \<Rightarrow>
                  (Raised IndexError,
                   s\<lparr>player_data := (player_data s)[ci := c\<lparr>equippedGears := eq\<rparr>]\<rparr>)
              | Some k \<Rightarrow>
                  (let eq' = eq[k := gear_data];
                       inv' = (if \<not> (\<exists>g \<in> set inv. gearID g = gear_id)
                               then inv @ [gear_data] else inv);
                       c' = c\<lparr>equippedGears := eq', inventoryGears := inv'\<rparr>;
                       s1 = persist (s\<lparr>player_data := (player_data s)[ci := c']\<rparr>)
                   in (Completed,
                       sendall (Packet 0x31
                         [Method4 entity_id, Bits prefix 3, Bits slot1 (nat nbits),
                          Method6 gear_id (GEARTYPE_BITSTOSEND K)]) s1))))))"

section \<open>Rune socketing (0xB0)\<close>

text \<open>Padding, then \<^verbatim>\<open>eq[:] = eq[:desired_slots]\<close> when the list is too long.\<close>

definition fit_slots :: "gear list \<Rightarrow> gear list" where
  "fit_slots eq =
     (let desired_slots = MAX_SLOTS - 1;
          eq1 = pad_to desired_slots eq
      in if length eq1 > desired_slots then take desired_slots eq1 else eq1)"

text \<open>
  \<^verbatim>\<open>for charm in charms: if charm["charmID"] == x: charm["count"] += 1; break\<close> with the
  \<^verbatim>\<open>else\<close> branch appending a new entry.
\<close>

definition return_charm :: "int \<Rightarrow> charm list \<Rightarrow> charm list" where
  "return_charm x cs =
     (case find_index (\<lambda>c. charmID c = x) cs of
        Some i \<Rightarrow> cs[i := (cs ! i)\<lparr>count := count (cs ! i) + 1\<rparr>]
      | None \<Rightarrow> cs @ [\<lparr>charmID = x, count = 1\<rparr>])"

text \<open>
  The decrement loop: the first entry with the id loses one unit and is removed by
  \<^verbatim>\<open>charms.remove(charm)\<close> (the first equal element) when its count is not positive; with
  no such entry the list is left as it is (a warning is printed).
\<close>

definition consume_charm :: "int \<Rightarrow> charm list \<Rightarrow> charm list" where
  "consume_charm x cs =
     (case find_index (\<lambda>c. charmID c = x) cs of
        Some i \<Rightarrow>
          (let charm' = (cs ! i)\<lparr>count := count (cs ! i) - 1\<rparr>;
               cs' = cs[i := charm']
           in if count charm' \<le> 0 then remove1 charm' cs' else cs')
      | None \<Rightarrow> cs)"

definition with_char :: "nat \<Rightarrow> character \<Rightarrow> session \<Rightarrow> session" where
  "with_char ci c s = s\<lparr>player_data := (player_data s)[ci := c]\<rparr>"

text \<open>The charm bookkeeping of the two branches, remover (rune id 96) and real rune.\<close>

definition socket_charms :: "int \<Rightarrow> int \<Rightarrow> charm list \<Rightarrow> charm list" where
  "socket_charms rune_id old_rune cs =
     (if rune_id = 96 then
        consume_charm 96
          (if old_rune \<noteq> 0 \<and> old_rune \<noteq> 96 then return_charm old_rune cs else cs)
      else consume_charm rune_id cs)"

text \<open>
  The block "Sync inventoryGears": the first inventory item with the gear id and tier gets
  the equipped item's rune at \<open>idx\<close> (\<open>None\<close> stands for the \<^verbatim>\<open>IndexError\<close> of a rune list
  that is too short); without such an item a copy of the equipped item is appended.
\<close>

definition sync_inventory :: "int \<Rightarrow> int \<Rightarrow> nat \<Rightarrow> gear \<Rightarrow> gear list \<Rightarrow> gear list option" where
  "sync_inventory gear_id gear_tier idx g' inv0 =
     (case find_index (\<lambda>item. gearID item = gear_id \<and> tier item = gear_tier) inv0 of
        Some p \<Rightarrow>
          (if length (runes (inv0 ! p)) \<le> idx then None
           else Some (inv0[p := (inv0 ! p)\<lparr>runes := (runes (inv0 ! p))[idx := runes g' ! idx]\<rparr>]))
      | None \<Rightarrow> Some (inv0 @ [g']))"

definition handle_rune_packet ::
  "constants \<Rightarrow> int \<Rightarrow> int \<Rightarrow> int \<Rightarrow> int \<Rightarrow> int \<Rightarrow> session \<Rightarrow> outcome \<times> session" where
  "handle_rune_packet K entity_id gear_id gear_tier rune_id rune_slot s =
     (case find_char (current_character s) (player_data s) of
        None \<Rightarrow> (Returned, s)
      | Some ci \<Rightarrow>
          (let c = player_data s ! ci;
               eq = fit_slots (equippedGears c);
               inv = inventoryGears c;
               c0 = c\<lparr>equippedGears := eq\<rparr>
           in (case find_index (\<lambda>g. gearID g = gear_id \<and> tier g = gear_tier) eq of
                None \<Rightarrow> (Returned, with_char ci c0 s)
              | Some slot \<Rightarrow>
                  (if \<not> (1 \<le> rune_slot \<and> rune_slot \<le> 3) then (Returned, with_char ci c0 s)
                   else
                     (let idx = nat (rune_slot - 1);
                          g = eq ! slot
                      in if length (runes g) \<le> idx then (Raised IndexError, with_char ci c0 s)
                         else
                           (let old_rune = runes g ! idx;
                                new_rune = (if rune_id = 96 then 0 else rune_id);
                                charms' = socket_charms rune_id old_rune (charms c);
                                g' = g\<lparr>runes := (runes g)[idx := new_rune]\<rparr>;
                                eq' = eq[slot := g'];
                                c1 = c\<lparr>equippedGears := eq', charms := charms'\<rparr>
                            in (case sync_inventory gear_id gear_tier idx g' inv of
                                 None \<Rightarrow> (Raised IndexError, with_char ci c1 s)
                               | Some inv' \<Rightarrow>
                                   (let s1 = persist (with_char ci (c1\<lparr>inventoryGears := inv'\<rparr>) s)
                                    in (Completed,
                                        sendall (Packet 0xB0
                                          [Method4 entity_id,
                                           Method6 gear_id (GEARTYPE_BITSTOSEND K),
                                           Method6 gear_tier (GearType_const_176 K),
                                           Method6 rune_id (class_64_const_101 K),
                                           Method6 rune_slot (class_1_const_765 K)]) s1)))))))))"

section \<open>Gear-sets (0xC7, 0xC8, 0xC6)\<close>

text \<open>Python's \<^verbatim>\<open>str\<close> on an integer, for the default name \<^verbatim>\<open>f"GearSet {slot_idx + 1}"\<close>.\<close>

fun str_nat :: "nat \<Rightarrow> string" where
  "str_nat n =
     (if n < 10 then [''0123456789'' ! n]
      else str_nat (n div 10) @ [''0123456789'' ! (n mod 10)])"

definition str_int :: "int \<Rightarrow> string" where
  "str_int i = (if i < 0 then CHR ''-'' # str_nat (nat (- i)) else str_nat (nat i))"

text \<open>
  Creating a gear-set: the new set has the default name and \<^verbatim>\<open>[0] * (EntType.MAX_SLOTS - 1)\<close>
  as its slot list; it replaces the set at \<^verbatim>\<open>slot_idx\<close> when that index is below the length of
  the list and is appended otherwise.
\<close>

definition handle_create_gearset :: "int \<Rightarrow> nat list \<Rightarrow> session \<Rightarrow> outcome \<times> session" where
  "handle_create_gearset slot_idx raw_data s =
     (case find_char (current_character s) (player_data s) of
        None \<Rightarrow> (Returned, s)
      | Some ci \<Rightarrow>
          (let c = player_data s ! ci;
               gs = gearSets c;
               gearset = \<lparr>gs_name = ''GearSet '' @ str_int (slot_idx + 1),
                          slots = replicate (MAX_SLOTS - 1) 0\<rparr>
           in if slot_idx < int (length gs) then
                (case py_index slot_idx (length gs) of
                   None \<Rightarrow> (Raised IndexError, s)
                 | Some k \<Rightarrow>
                     (Completed,
                      sendall (Raw raw_data)
                        (persist (with_char ci (c\<lparr>gearSets := gs[k := gearset]\<rparr>) s))))
              else
                (Completed,
                 sendall (Raw raw_data)
                   (persist (with_char ci (c\<lparr>gearSets := gs @ [gearset]\<rparr>) s)))))"

text \<open>
  Naming a gear-set, for a request whose name string was decoded (the handler returns
  before it reads the save when the declared string length exceeds the payload): only the
  name of the set is written.
\<close>

definition handle_name_gearset ::
  "int \<Rightarrow> string \<Rightarrow> nat list \<Rightarrow> session \<Rightarrow> outcome \<times> session" where
  "handle_name_gearset slot_idx new_name raw_data s =
     (case find_char (current_character s) (player_data s) of
        None \<Rightarrow> (Returned, s)
      | Some ci \<Rightarrow>
          (let c = player_data s ! ci;
               gs = gearSets c
           in if slot_idx < int (length gs) then
                (case py_index slot_idx (length gs) of
                   None \<Rightarrow> (Raised IndexError, s)
                 | Some k \<Rightarrow>
                     (Completed,
                      sendall (Raw raw_data)
                        (persist (with_char ci
                           (c\<lparr>gearSets := gs[k := (gs ! k)\<lparr>gs_name := new_name\<rparr>]\<rparr>) s))))
              else (Returned, s)))"

text \<open>
  Applying the equipped gear to a gear-set. The handler is the only one besides
  \<open>handle_create_gearset\<close> that writes a slot list.
\<close>

definition handle_apply_gearset :: "int \<Rightarrow> nat list \<Rightarrow> session \<Rightarrow> outcome \<times> session" where
  "handle_apply_gearset slot_idx raw_data s =
     (case find_char (current_character s) (player_data s) of
        None \<Rightarrow> (Returned, s)
      | Some ci \<Rightarrow>
          (let c = player_data s ! ci;
               gs = gearSets c
           in if slot_idx \<ge> int (length gs) then (Returned, s)
              else
                (let eq = equippedGears c
                 in if length eq \<noteq> MAX_SLOTS - 1 then (Returned, s)
                    else
                      (case py_index slot_idx (length gs) of
                         None \<Rightarrow> (Raised IndexError, s)
                       | Some k \<Rightarrow>
                           (let gear_ids = map gearID eq;
                                gs' = gs[k := (gs ! k)\<lparr>slots := gear_ids\<rparr>];
                                s1 = persist (with_char ci (c\<lparr>gearSets := gs'\<rparr>) s)
                            in (Completed, sendall (Raw raw_data) s1))))))"

section \<open>Magic forge (0xB1, speed-up, 0xD0)\<close>

text \<open>\<^verbatim>\<open>materials_used[mat_id] = count\<close>: a dict keeps the position of a key's first insertion.\<close>

fun dict_set :: "'k \<Rightarrow> 'v \<Rightarrow> ('k \<times> 'v) list \<Rightarrow> ('k \<times> 'v) list" where
  "dict_set k v [] = [(k, v)]"
| "dict_set k v (p # ps) = (if fst p = k then (k, v) # ps else p # dict_set k v ps)"

definition deduct_material :: "int \<Rightarrow> int \<Rightarrow> material list \<Rightarrow> material list" where
  "deduct_material mat_id used mats =
     (case find_index (\<lambda>entry. materialID entry = mat_id) mats of
        Some i \<Rightarrow> mats[i := (mats ! i)\<lparr>mat_count := max 0 (mat_count (mats ! i) - used)\<rparr>]
      | None \<Rightarrow> mats @ [\<lparr>materialID = mat_id, mat_count = 0\<rparr>])"

definition deduct_consumable :: "int \<Rightarrow> consumable list \<Rightarrow> consumable list" where
  "deduct_consumable cid cons =
     (case find_index (\<lambda>entry. consumableID entry = cid) cons of
        Some i \<Rightarrow> cons[i := (cons ! i)\<lparr>con_count := max 0 (con_count (cons ! i) - 1)\<rparr>]
      | None \<Rightarrow> cons @ [\<lparr>consumableID = cid, con_count = 0\<rparr>])"

text \<open>
  The decoded request: the primary id, the \<^verbatim>\<open>(mat_id, count)\<close> pairs in the order the loop
  reads them, and the four consumable flags. \<open>read_materials\<close> is the dict \<^verbatim>\<open>materials_used\<close>
  that the reading loop fills from the pairs.
\<close>

definition read_materials :: "(int \<times> int) list \<Rightarrow> (int \<times> int) list" where
  "read_materials pairs = fold (\<lambda>(mat_id, n). dict_set mat_id n) pairs []"

definition start_forge_packet ::
  "constants \<Rightarrow> int \<Rightarrow> (int \<times> int) list \<Rightarrow> bool list \<Rightarrow> session \<Rightarrow> outcome \<times> session" where
  "start_forge_packet K primary_id pairs consumable_flags s =
     (let materials_used = read_materials pairs in
      (case find_char (current_character s) (player_data s) of
        None \<Rightarrow> (Returned, s)
      | Some ci \<Rightarrow>
          (let c = player_data s ! ci;
               mats = fold (\<lambda>(mat_id, used). deduct_material mat_id used) materials_used (materials c);
               consumable_ids =
                 [class_3_var_1415 K, class_3_var_2082 K, class_3_var_1374 K, class_3_var_1462 K];
               cons = fold (\<lambda>(flag, cid) cons. if flag then deduct_consumable cid cons else cons)
                        (zip consumable_flags consumable_ids) (consumables c);
               mf = (magicForge c)\<lparr>hasSession := True, primary := primary_id,
                      status := class_111_const_286 K, duration := 60000, var_8 := 0,
                      usedlist := 0, var_2675 := 0, var_2316 := 0, var_2434 := True\<rparr>;
               c' = c\<lparr>materials := mats, consumables := cons, magicForge := mf\<rparr>
           in (Completed, persist (with_char ci c' s)))))"

definition magic_forge_packet :: "constants \<Rightarrow> int \<Rightarrow> session \<Rightarrow> outcome \<times> session" where
  "magic_forge_packet K idols_to_spend s =
     (case find_char (current_character s) (player_data s) of
        None \<Rightarrow> (Returned, s)
      | Some ci \<Rightarrow>
          (let c = player_data s ! ci;
               mf = magicForge c;
               available = mammothIdols c
           in if hasSession mf \<and> available \<ge> idols_to_spend then
                (let mf' = mf\<lparr>status := class_111_const_264 K, duration := 0\<rparr>;
                     c' = c\<lparr>mammothIdols := available - idols_to_spend, magicForge := mf'\<rparr>;
                     s1 = persist (with_char ci c' s)
                 in (Completed,
                     sendall (Packet 0xcd
                       [Method6 (primary mf') (class_1_const_254 K), Method91 (var_2675 mf'),
                        Method91 (var_2316 mf'), AppendBits 0 1]) s1))
              else (Completed, s)))"

definition collect_forge_charm :: "session \<Rightarrow> outcome \<times> session" where
  "collect_forge_charm s =
     (case find_char (current_character s) (player_data s) of
        None \<Rightarrow> (Returned, s)
      | Some ci \<Rightarrow>
          (let c = player_data s ! ci;
               mf = magicForge c
           in if \<not> hasSession mf then (Returned, s)
              else
                (let charm_id = primary mf;
                     charms' = (if charm_id \<le> 0 then charms c else return_charm charm_id (charms c));
                     mf' = mf\<lparr>hasSession := False, primary := 0, secondary := 0, duration := 0,
                             usedlist := 0, var_2675 := 0, var_2316 := 0, var_2434 := False,
                             status := 0\<rparr>;
                     s1 = persist (with_char ci (c\<lparr>charms := charms', magicForge := mf'\<rparr>) s)
                 in (Completed, sendall (Packet 0xe3 []) s1))))"

definition cancel_forge_packet :: "session \<Rightarrow> outcome \<times> session" where
  "cancel_forge_packet s =
     (case find_char (current_character s) (player_data s) of
        None \<Rightarrow> (Returned, s)
      | Some ci \<Rightarrow>
          (let c = player_data s ! ci;
               mf = magicForge c;
               mf' = mf\<lparr>hasSession := False, status := 0, duration := 0, primary := 0,
                       secondary := 0, var_8 := 0, usedlist := 0, var_2675 := 0,
                       var_2316 := 0, var_2434 := False\<rparr>
           in (Completed, persist (with_char ci (c\<lparr>magicForge := mf'\<rparr>) s))))"

section \<open>Mastery tree (0xC1, 0xC3)\<close>

text \<open>
  \<^verbatim>\<open>char.get("Mastery", {}).get(str(mc), {}).get("slots", [])\<close>: the \<open>Mastery\<close> dict is keyed
  by the decimal string of the class id, which is one-to-one with the id; the model keys
  it by the id. A slot entry has the keys \<^verbatim>\<open>nodeIdx\<close> and \<^verbatim>\<open>points\<close>, which the handler
  reads without a default; an absent \<^verbatim>\<open>filled\<close> key reads as false.
\<close>

definition class_slots :: "character \<Rightarrow> int \<Rightarrow> mastery_slot list" where
  "class_slots c mc = (case map_of (Mastery c) mc of None \<Rightarrow> [] | Some sl \<Rightarrow> sl)"

definition send_mastery_packet :: "constants \<Rightarrow> int \<Rightarrow> session \<Rightarrow> session" where
  "send_mastery_packet K entity_id s =
     (case find_char (current_character s) (player_data s) of
        None \<Rightarrow> s
      | Some ci \<Rightarrow>
          (let c = player_data s ! ci;
               mc = MasterClass c;
               mslots = class_slots c mc;
               slot_map = fold (\<lambda>sl. dict_set (nodeIdx sl - 1) sl) mslots [];
               total = class_118_const_43;
               bb = fold (\<lambda>i bb.
                      (case map_of slot_map (int i) of
                         None \<Rightarrow> bb @ [Bits 0 1]
                       | Some slot \<Rightarrow>
                           (if filled slot then
                              bb @ [Bits 1 1, Method6 (nodeIdx slot) (CLASS_118_CONST_127 K),
                                    Bits (points slot - 1) (method_277 K i)]
                            else bb @ [Bits 0 1])))
                      [0..<total] [Method4 entity_id]
           in sendall (Packet 0xC1 bb) s))"

definition handle_masterclass_packet :: "constants \<Rightarrow> int \<Rightarrow> int \<Rightarrow> session \<Rightarrow> outcome \<times> session" where
  "handle_masterclass_packet K entity_id master_class_id s =
     (case find_char (current_character s) (player_data s) of
        None \<Rightarrow> (Returned, s)
      | Some ci \<Rightarrow>
          (let c = player_data s ! ci;
               s1 = persist (with_char ci (c\<lparr>MasterClass := master_class_id\<rparr>) s);
               s2 = sendall (Packet 0xC3
                      [Method4 entity_id, Method6 master_class_id (GAME_CONST_209 K)]) s1
           in (Completed, send_mastery_packet K entity_id s2)))"

section \<open>Hotbar\<close>

text \<open>
  Modelled from the spec: \<^verbatim>\<open>BitReader\<close> is defined in \<^verbatim>\<open>bitreader.py\<close>, which is not part of
  the sources. The spec's reader wraps the payload bytes and a bit cursor; \<^verbatim>\<open>readBits(n)\<close>
  returns the unsigned integer of the next \<open>n\<close> bits, most significant bit first, and
  fails with \<^verbatim>\<open>TruncatedPacket\<close> when fewer than \<open>n\<close> bits remain. The reader is represented
  by the bits that remain after the cursor.
\<close>

definition bits_of_byte :: "nat \<Rightarrow> bool list" where
  "bits_of_byte b = map (\<lambda>k. odd (b div 2 ^ (7 - k))) [0..<8]"

definition BitReader :: "nat list \<Rightarrow> bool list" where
  "BitReader payload = concat (map bits_of_byte payload)"

definition remaining_bits :: "bool list \<Rightarrow> nat" where
  "remaining_bits reader = length reader"

definition bits_value :: "bool list \<Rightarrow> int" where
  "bits_value bs = foldl (\<lambda>acc b. 2 * acc + (if b then 1 else 0)) 0 bs"

definition read_bits :: "nat \<Rightarrow> bool list \<Rightarrow> py_error + int \<times> bool list" where
  "read_bits n reader =
     (if length reader < n then Inl TruncatedPacket
      else Inr (bits_value (take n reader), drop n reader))"

text \<open>The decoding loop of the handler, with its variables \<^verbatim>\<open>slot\<close> and \<^verbatim>\<open>updates\<close>.\<close>

function hotbar_loop ::
  "bool list \<Rightarrow> nat \<Rightarrow> (nat \<times> int) list \<Rightarrow> py_error + (nat \<times> int) list" where
  "hotbar_loop reader slot updates =
     (if remaining_bits reader \<ge> 1 then
        (case read_bits 1 reader of
           Inl e \<Rightarrow> Inl e
         | Inr (changed, reader1) \<Rightarrow>
             (if changed \<noteq> 0 then
                (case read_bits 7 reader1 of
                   Inl e \<Rightarrow> Inl e
                 | Inr (skill_id, reader2) \<Rightarrow>
                     hotbar_loop reader2 (slot + 1) (dict_set (slot - 1) skill_id updates))
              else hotbar_loop reader1 (slot + 1) updates))
      else Inr updates)"
  by pat_completeness auto
termination
  by (relation "measure (\<lambda>(reader, slot, updates). length reader)")
     (auto simp: read_bits_def remaining_bits_def split: if_splits)

definition handle_hotbar_packet :: "nat list \<Rightarrow> session \<Rightarrow> outcome \<times> session" where
  "handle_hotbar_packet raw_data s =
     (let payload = drop 4 raw_data;
          reader = BitReader payload
      in (case hotbar_loop reader 1 [] of
            Inl e \<Rightarrow> (Raised e, s)
          | Inr updates \<Rightarrow>
              (case find_char (current_character s) (player_data s) of
                 None \<Rightarrow> (Returned, s)
               | Some ci \<Rightarrow>
                   (let c = player_data s ! ci;
                        active = activeAbilities c;
                        max_idx = fold (\<lambda>(k, v) m. max (int k) m) updates (- 1);
                        active1 = active @ replicate (nat (max_idx + 1) - length active) 0;
                        active2 = fold (\<lambda>(idx, skill_id) a. a[idx := skill_id]) updates active1
                    in (Completed, persist (with_char ci (c\<lparr>activeAbilities := active2\<rparr>) s))))))"

section \<open>Observations and example data\<close>

text \<open>The charm list read as the mapping from charm id to count.\<close>

definition charm_count :: "charm list \<Rightarrow> int \<Rightarrow> int option" where
  "charm_count cs = map_of (map (\<lambda>c. (charmID c, count c)) cs)"

text \<open>
  The material and consumable stocks read as mappings from id to count: the count of the
  first entry with the id, which is the entry the handlers read and write.
\<close>

definition stock_count :: "material list \<Rightarrow> int \<Rightarrow> int option" where
  "stock_count mats = map_of (map (\<lambda>e. (materialID e, mat_count e)) mats)"

definition cons_count :: "consumable list \<Rightarrow> int \<Rightarrow> int option" where
  "cons_count cons = map_of (map (\<lambda>e. (consumableID e, con_count e)) cons)"

text \<open>
  The equip invariant as the claim words it: every equipped item has an inventory entry
  with its gear id and identical runes and colors. \<open>gear_synced\<close> asks this of the items
  with a non-zero gear id only, that is, not of the default items that pad the list.
\<close>

definition has_copy :: "gear list \<Rightarrow> gear \<Rightarrow> bool" where
  "has_copy inv0 e =
     (\<exists>i \<in> set inv0. gearID i = gearID e \<and> runes i = runes e \<and> colors i = colors e)"

definition gear_synced_all :: "gear list \<Rightarrow> gear list \<Rightarrow> bool" where
  "gear_synced_all eq inv0 = (\<forall>e \<in> set eq. has_copy inv0 e)"

definition gear_synced :: "gear list \<Rightarrow> gear list \<Rightarrow> bool" where
  "gear_synced eq inv0 = (\<forall>e \<in> set eq. gearID e \<noteq> 0 \<longrightarrow> has_copy inv0 e)"

definition idle_forge :: forge where
  "idle_forge = \<lparr>hasSession = False, primary = 0, secondary = 0, status = 0, duration = 0,
     var_8 = 0, usedlist = 0, var_2675 = 0, var_2316 = 0, var_2434 = False\<rparr>"

definition hero :: character where
  "hero = \<lparr>name = ''hero'', equippedGears = [], inventoryGears = [], charms = [],
     materials = [], consumables = [], magicForge = idle_forge, mammothIdols = 0,
     activeAbilities = [], gearSets = [], MasterClass = 1, Mastery = []\<rparr>"

definition solo :: "character \<Rightarrow> session" where
  "solo c = \<lparr>player_data = [c], current_character = name c, saved = [], sent = []\<rparr>"

definition K_demo :: constants where
  "K_demo = \<lparr>GEARTYPE_BITSTOSEND = 11, GearType_const_176 = 2, class_64_const_101 = 7,
     class_1_const_765 = 2, GAME_CONST_209 = 4, CLASS_118_CONST_127 = 5,
     class_1_const_254 = 8, method_277 = (\<lambda>i. if i < 9 then 1 else 2),
     class_111_const_264 = 2, class_111_const_286 = 1, class_3_var_1415 = 1,
     class_3_var_2082 = 2, class_3_var_1374 = 3, class_3_var_1462 = 4\<rparr>"

definition gear_of :: "int \<Rightarrow> int \<Rightarrow> int list \<Rightarrow> gear" where
  "gear_of g t rs = \<lparr>gearID = g, tier = t, runes = rs, colors = [0, 0]\<rparr>"

definition forging :: forge where
  "forging = \<lparr>hasSession = True, primary = 7, secondary = 0, status = 1, duration = 60000,
     var_8 = 0, usedlist = 0, var_2675 = 0, var_2316 = 0, var_2434 = True\<rparr>"

definition six_gears :: "gear list" where
  "six_gears = [gear_of 1 0 [0, 0, 0], gear_of 2 0 [0, 0, 0], gear_of 3 0 [0, 0, 0],
                gear_of 4 0 [0, 0, 0], gear_of 5 1 [0, 0, 0], gear_of 6 0 [0, 0, 0]]"

text \<open>Characters for the examples of the equip invariant.\<close>

definition stale_slot :: character where
  "stale_slot = hero\<lparr>equippedGears := [gear_of 7 0 [1, 0, 0]]\<rparr>"

definition same_gear_twice :: character where
  "same_gear_twice = hero\<lparr>equippedGears := [gear_of 5 1 [0, 0, 0], gear_of 5 1 [0, 0, 0]],
     inventoryGears := [gear_of 5 1 [0, 0, 0]], charms := [\<lparr>charmID = 20, count = 1\<rparr>]\<rparr>"

definition two_tiers_owned :: character where
  "two_tiers_owned = hero\<lparr>equippedGears := [gear_of 5 1 [0, 0, 0]],
     inventoryGears := [gear_of 5 1 [9, 9, 9], gear_of 5 2 [0, 0, 0]],
     charms := [\<lparr>charmID = 20, count = 1\<rparr>]\<rparr>"

definition rune_ready :: character where
  "rune_ready = hero\<lparr>equippedGears := [gear_of 5 1 [0, 0, 0]],
     inventoryGears := [gear_of 5 1 [0, 0, 0], gear_of 42 2 [3, 0, 0]],
     charms := [\<lparr>charmID = 20, count = 1\<rparr>, \<lparr>charmID = 96, count = 2\<rparr>]\<rparr>"

text \<open>
  The node of a tree at the 0-based index \<open>i\<close>: the last slot entry whose \<open>nodeIdx - 1\<close> is
  \<open>i\<close>, as in the dict \<^verbatim>\<open>{ s["nodeIdx"] - 1: s for s in slots }\<close>.
\<close>

definition tree_node :: "mastery_slot list \<Rightarrow> nat \<Rightarrow> mastery_slot option" where
  "tree_node tree i = find (\<lambda>sl. nodeIdx sl - 1 = int i) (rev tree)"

text \<open>
  The mastery encoding, written from the description and not from the handler's loop: for
  node index \<open>i\<close>, one presence bit; when the tree has a filled node at \<open>i\<close>, the index
  \<open>i + 1\<close> with the fixed width and \<open>points - 1\<close> with the width \<open>method_277 i\<close>.
\<close>

definition mastery_node_fields :: "constants \<Rightarrow> mastery_slot list \<Rightarrow> nat \<Rightarrow> field list" where
  "mastery_node_fields K tree i =
     (case tree_node tree i of
        None \<Rightarrow> [Bits 0 1]
      | Some slot \<Rightarrow>
          (if filled slot then
             [Bits 1 1, Method6 (int i + 1) (CLASS_118_CONST_127 K),
              Bits (points slot - 1) (method_277 K i)]
           else [Bits 0 1]))"

definition mastery_tree_fields :: "constants \<Rightarrow> int \<Rightarrow> mastery_slot list \<Rightarrow> field list" where
  "mastery_tree_fields K entity_id tree =
     Method4 entity_id # concat (map (mastery_node_fields K tree) [0..<27])"

text \<open>
  The same encoding with the index written as the claim words it: the node index \<open>i\<close> of
  the enumeration from 0 to 26.
\<close>

definition claimed_node_fields :: "constants \<Rightarrow> mastery_slot list \<Rightarrow> nat \<Rightarrow> field list" where
  "claimed_node_fields K tree i =
     (case tree_node tree i of
        None \<Rightarrow> [Bits 0 1]
      | Some slot \<Rightarrow>
          (if filled slot then
             [Bits 1 1, Method6 (int i) (CLASS_118_CONST_127 K),
              Bits (points slot - 1) (method_277 K i)]
           else [Bits 0 1]))"

definition claimed_tree_fields :: "constants \<Rightarrow> int \<Rightarrow> mastery_slot list \<Rightarrow> field list" where
  "claimed_tree_fields K entity_id tree =
     Method4 entity_id # concat (map (claimed_node_fields K tree) [0..<27])"

definition demo_tree :: "mastery_slot list" where
  "demo_tree = [\<lparr>nodeIdx = 1, filled = True, points = 3\<rparr>,
                \<lparr>nodeIdx = 3, filled = False, points = 0\<rparr>,
                \<lparr>nodeIdx = 10, filled = True, points = 1\<rparr>]"

text \<open>A character with a tree for each of two classes, class 1 selected.\<close>

definition two_trees :: character where
  "two_trees = hero\<lparr>Mastery := [(1, [\<lparr>nodeIdx = 27, filled = True, points = 2\<rparr>]),
                                 (2, demo_tree)]\<rparr>"

text \<open>
  Every gear-set of the character has the standard number of slots, as every slot list
  has that the handlers write.
\<close>

definition gearsets_standard :: "character \<Rightarrow> bool" where
  "gearsets_standard c = (\<forall>g \<in> set (gearSets c). length (slots g) = MAX_SLOTS - 1)"

definition one_gearset :: "gearset list" where
  "one_gearset = [\<lparr>gs_name = ''GearSet 1'', slots = [0, 0, 0, 0, 0, 0]\<rparr>]"

text \<open>
  The hotbar payload in the words of the claim: one changed flag per declared slot, and a
  7-bit skill id after each set flag. The result lists, per declared slot, the decoded
  skill id of a flagged slot; it is \<open>None\<close> when the payload ends inside a skill id.
\<close>

fun hotbar_slots :: "bool list \<Rightarrow> int option list option" where
  "hotbar_slots [] = Some []"
| "hotbar_slots (False # bs) = map_option (Cons None) (hotbar_slots bs)"
| "hotbar_slots (True # bs) =
     (if length bs < 7 then None
      else map_option (Cons (Some (bits_value (take 7 bs)))) (hotbar_slots (drop 7 bs)))"

section \<open>Basic facts\<close>

lemma find_index_Some:
  "find_index P xs = Some i \<Longrightarrow> i < length xs \<and> P (xs ! i) \<and> (\<forall>j<i. \<not> P (xs ! j))"
proof (induction xs arbitrary: i)
  case Nil
  then show ?case by simp
next
  case (Cons x xs)
  show ?case
  proof (cases "P x")
    case True
    with Cons.prems show ?thesis by simp
  next
    case False
    with Cons.prems obtain k where k: "find_index P xs = Some k" "i = Suc k" by auto
    from Cons.IH[OF k(1)] False k(2) show ?thesis
      by (auto simp: nth_Cons split: nat.splits)
  qed
qed

lemma find_index_None: "find_index P xs = None \<longleftrightarrow> (\<forall>x\<in>set xs. \<not> P x)"
  by (induction xs) auto

lemma find_None_all: "find P xs = None \<longleftrightarrow> (\<forall>x\<in>set xs. \<not> P x)"
  by (induction xs) auto

lemma find_char_bound: "find_char nm chars = Some ci \<Longrightarrow> ci < length chars"
  by (simp add: find_char_def find_index_Some)

lemma py_index_Some: "py_index i n = Some k \<Longrightarrow> k < n"
  by (auto simp: py_index_def split: if_splits)

lemma map_of_dict_set: "map_of (dict_set k v d) = (map_of d)(k \<mapsto> v)"
  by (induction d) (auto simp: fun_upd_twist)

lemma length_pad_to: "length (pad_to n eq) = max n (length eq)"
  by (simp add: pad_to_def)

lemma length_fit_slots: "length (fit_slots eq) = MAX_SLOTS - 1"
  by (simp add: fit_slots_def Let_def length_pad_to)

lemma fit_slots_take:
  "fit_slots eq = take 6 (eq @ replicate (6 - length eq) default_gear)"
  by (simp add: fit_slots_def Let_def pad_to_def MAX_SLOTS_def)

section \<open>Equip of a gear id the inventory lacks\<close>

text \<open>
  C3. A single-gear-equip request that decodes to \<open>slot1 = 1\<close> and a gear id absent from
  the character's inventory runs to completion: the placeholder item (tier 0, runes
  \<open>[0,0,0]\<close>, colors \<open>[0,0]\<close>) is written at index 0 of the padded equipped list, a copy is
  appended to the inventory, the save is written, and the reply 0x31 carries the
  request's entity id, prefix, slot and gear id.
\<close>

theorem equip_unknown_gear_slot1:
  assumes "find_char (current_character s) (player_data s) = Some ci"
      and "slot1 = 1"
      and "\<forall>g \<in> set (inventoryGears (player_data s ! ci)). gearID g \<noteq> gear_id"
  shows "handle_gear_packet K entity_id prefix slot1 gear_id s =
     (let c = player_data s ! ci;
          placeholder = \<lparr>gearID = gear_id, tier = 0, runes = [0, 0, 0], colors = [0, 0]\<rparr>;
          chars' = (player_data s)[ci := c\<lparr>
             equippedGears := (pad_to 6 (equippedGears c))[0 := placeholder],
             inventoryGears := inventoryGears c @ [placeholder]\<rparr>]
      in (Completed,
          s\<lparr>player_data := chars',
            saved := saved s @ [chars'],
            sent := sent s @ [Packet 0x31
               [Method4 entity_id, Bits prefix 3,
                Bits slot1 (nat (2 * (prefix + 1))),
                Method6 gear_id (GEARTYPE_BITSTOSEND K)]]\<rparr>))"
proof -
  have f: "find (\<lambda>item. gearID item = gear_id) (inventoryGears (player_data s ! ci)) = None"
    using assms(3) by (simp add: find_None_all)
  have p: "py_index 0 (length (pad_to 6 (equippedGears (player_data s ! ci)))) = Some 0"
    by (simp add: py_index_def length_pad_to)
  show ?thesis
    using assms f p by (simp add: handle_gear_packet_def Let_def persist_def sendall_def)
qed

theorem equip_unknown_gear_slot1_witness:
  "handle_gear_packet K_demo 7 0 1 42 (solo hero) =
     (Completed,
      \<lparr>player_data = [hero\<lparr>
          equippedGears := [gear_of 42 0 [0, 0, 0], default_gear, default_gear, default_gear,
                            default_gear, default_gear],
          inventoryGears := [gear_of 42 0 [0, 0, 0]]\<rparr>],
       current_character = ''hero'',
       saved = [[hero\<lparr>
          equippedGears := [gear_of 42 0 [0, 0, 0], default_gear, default_gear, default_gear,
                            default_gear, default_gear],
          inventoryGears := [gear_of 42 0 [0, 0, 0]]\<rparr>]],
       sent = [Packet 0x31 [Method4 7, Bits 0 3, Bits 1 2, Method6 42 11]]\<rparr>)"
proof -
  have h1: "find_char (current_character (solo hero)) (player_data (solo hero)) = Some 0"
    by (simp add: solo_def hero_def find_char_def)
  have h3: "\<forall>g \<in> set (inventoryGears (player_data (solo hero) ! 0)). gearID g \<noteq> 42"
    by (simp add: solo_def hero_def)
  show ?thesis
    using equip_unknown_gear_slot1[OF h1 refl h3, of K_demo 7 0]
    by (simp add: solo_def hero_def Let_def pad_to_def gear_of_def K_demo_def numeral_eq_Suc)
qed

section \<open>Rune socket request with a rune slot outside 1..3\<close>

text \<open>
  C10. A rune-socket request whose decoded \<open>rune_slot\<close> is not 1, 2 or 3 leaves through the
  handler's early return, whether or not an equipped item matches the decoded gear id and
  tier: nothing is written to the save file, nothing is sent, and the only change to the
  character is that \<open>equippedGears\<close> is padded with default items and cut to the six
  standard slots; the runes of the slots that remain, the charms and the inventory are as
  before.
\<close>

theorem rune_slot_out_of_range:
  assumes "rune_slot \<notin> {1, 2, 3}"
  shows "handle_rune_packet K entity_id gear_id gear_tier rune_id rune_slot s =
     (Returned,
      (case find_char (current_character s) (player_data s) of
         None \<Rightarrow> s
       | Some ci \<Rightarrow>
           s\<lparr>player_data := (player_data s)[ci := (player_data s ! ci)\<lparr>equippedGears :=
               take 6 (equippedGears (player_data s ! ci) @
                 replicate (6 - length (equippedGears (player_data s ! ci))) default_gear)\<rparr>]\<rparr>))"
proof -
  have "\<not> (1 \<le> rune_slot \<and> rune_slot \<le> 3)"
    using assms by auto
  then show ?thesis
    by (simp add: handle_rune_packet_def Let_def with_char_def fit_slots_take split: option.splits)
qed

theorem rune_slot_out_of_range_witness:
  "(4::int) \<notin> {1, 2, 3} \<and>
   handle_rune_packet K_demo 7 5 1 20 4
     (solo (hero\<lparr>equippedGears := [gear_of 5 1 [0, 0, 0]], inventoryGears := [gear_of 5 1 [0, 0, 0]],
                 charms := [\<lparr>charmID = 20, count = 2\<rparr>]\<rparr>)) =
   (Returned,
    solo (hero\<lparr>equippedGears := [gear_of 5 1 [0, 0, 0], default_gear, default_gear, default_gear,
                                   default_gear, default_gear],
               inventoryGears := [gear_of 5 1 [0, 0, 0]],
               charms := [\<lparr>charmID = 20, count = 2\<rparr>]\<rparr>))"
proof -
  have h: "(4::int) \<notin> {1, 2, 3}" by simp
  show ?thesis
    using rune_slot_out_of_range[OF h, of K_demo 7 5 1 20
      "solo (hero\<lparr>equippedGears := [gear_of 5 1 [0, 0, 0]], inventoryGears := [gear_of 5 1 [0, 0, 0]],
                 charms := [\<lparr>charmID = 20, count = 2\<rparr>]\<rparr>)"]
    by (simp add: solo_def hero_def find_char_def numeral_eq_Suc)
qed

section \<open>Forge speed-up\<close>

text \<open>
  C5. For a character of the save, a speed-up request with spend \<open>idols_to_spend\<close> is
  accepted exactly when the character's \<open>magicForge.hasSession\<close> is true and its
  \<open>mammothIdols\<close> balance is at least the spend. On acceptance the balance is debited by
  the spend, the session's duration becomes 0 and its status the completed code, the save
  is written and the forge-update reply 0xCD is sent. Otherwise the session is returned
  as it was: no character state changes, nothing is written, nothing is sent. (The
  handler's \<^verbatim>\<open>setdefault("magicForge", {})\<close> gives a character without the key an empty
  session, which reads as the idle session the absent key stands for.)
\<close>

theorem speed_up_accept_iff:
  assumes "find_char (current_character s) (player_data s) = Some ci"
  shows "magic_forge_packet K idols_to_spend s =
     (let c = player_data s ! ci;
          mf = magicForge c
      in if hasSession mf \<and> idols_to_spend \<le> mammothIdols c then
           (let chars' = (player_data s)[ci := c\<lparr>
                   mammothIdols := mammothIdols c - idols_to_spend,
                   magicForge := mf\<lparr>status := class_111_const_264 K, duration := 0\<rparr>\<rparr>]
            in (Completed,
                s\<lparr>player_data := chars',
                  saved := saved s @ [chars'],
                  sent := sent s @ [Packet 0xcd
                    [Method6 (primary mf) (class_1_const_254 K), Method91 (var_2675 mf),
                     Method91 (var_2316 mf), AppendBits 0 1]]\<rparr>))
         else (Completed, s))"
  using assms
  by (simp add: magic_forge_packet_def Let_def with_char_def persist_def sendall_def)

theorem speed_up_accept_iff_witness:
  "magic_forge_packet K_demo 4 (solo (hero\<lparr>magicForge := forging, mammothIdols := 10\<rparr>)) =
     (Completed,
      \<lparr>player_data = [hero\<lparr>magicForge := forging\<lparr>status := 2, duration := 0\<rparr>, mammothIdols := 6\<rparr>],
       current_character = ''hero'',
       saved = [[hero\<lparr>magicForge := forging\<lparr>status := 2, duration := 0\<rparr>, mammothIdols := 6\<rparr>]],
       sent = [Packet 0xcd [Method6 7 8, Method91 0, Method91 0, AppendBits 0 1]]\<rparr>) \<and>
   magic_forge_packet K_demo 4 (solo (hero\<lparr>magicForge := forging, mammothIdols := 3\<rparr>)) =
     (Completed, solo (hero\<lparr>magicForge := forging, mammothIdols := 3\<rparr>)) \<and>
   magic_forge_packet K_demo 4 (solo (hero\<lparr>mammothIdols := 10\<rparr>)) =
     (Completed, solo (hero\<lparr>mammothIdols := 10\<rparr>))"
proof -
  let ?a = "solo (hero\<lparr>magicForge := forging, mammothIdols := 10\<rparr>)"
  let ?b = "solo (hero\<lparr>magicForge := forging, mammothIdols := 3\<rparr>)"
  let ?c = "solo (hero\<lparr>mammothIdols := 10\<rparr>)"
  have ha: "find_char (current_character ?a) (player_data ?a) = Some 0"
   and hb: "find_char (current_character ?b) (player_data ?b) = Some 0"
   and hc: "find_char (current_character ?c) (player_data ?c) = Some 0"
    by (simp_all add: solo_def hero_def find_char_def)
  show ?thesis
    using speed_up_accept_iff[OF ha, where K = K_demo and idols_to_spend = 4]
          speed_up_accept_iff[OF hb, where K = K_demo and idols_to_spend = 4]
          speed_up_accept_iff[OF hc, where K = K_demo and idols_to_spend = 4]
    by (simp add: solo_def hero_def forging_def idle_forge_def K_demo_def Let_def)
qed

section \<open>Apply gear-set\<close>

text \<open>
  The handler's result for a character of the save and an unsigned set index: its guard
  compares the length of the equipped list with \<open>MAX_SLOTS - 1\<close>.
\<close>

lemma handle_apply_gearset_result:
  assumes "find_char (current_character s) (player_data s) = Some ci"
      and "0 \<le> slot_idx"
  shows "handle_apply_gearset slot_idx raw_data s =
     (let c = player_data s ! ci;
          gs = gearSets c
      in if slot_idx < int (length gs) \<and> length (equippedGears c) = MAX_SLOTS - 1 then
           (let chars' = (player_data s)[ci := c\<lparr>gearSets :=
                   gs[nat slot_idx := (gs ! nat slot_idx)\<lparr>slots := map gearID (equippedGears c)\<rparr>]\<rparr>]
            in (Completed,
                s\<lparr>player_data := chars', saved := saved s @ [chars'],
                  sent := sent s @ [Raw raw_data]\<rparr>))
         else (Returned, s))"
  using assms
  by (auto simp add: handle_apply_gearset_def Let_def with_char_def persist_def sendall_def py_index_def)

text \<open>
  Every slot list that a handler writes has \<open>MAX_SLOTS - 1\<close> entries: the create handler
  writes that many zeros, the apply handler writes the gear ids of an equipped list of
  that length, and the name handler writes no slot list. So a save whose gear-sets all
  have the standard slot count keeps this property under the three gear-set requests.
\<close>

lemma standard_update:
  assumes all: "\<forall>c \<in> set chars. gearsets_standard c"
      and new: "gearsets_standard c'"
  shows "\<forall>c \<in> set (chars[ci := c']). gearsets_standard c"
  using all new set_update_subset_insert[of chars ci c'] by auto

lemma create_gearset_standard:
  assumes all: "\<forall>c \<in> set (player_data s). gearsets_standard c"
  shows "\<forall>c \<in> set (player_data (snd (handle_create_gearset slot_idx raw_data s))).
           gearsets_standard c"
proof (cases "find_char (current_character s) (player_data s)")
  case None
  then show ?thesis using all by (simp add: handle_create_gearset_def)
next
  case (Some ci)
  let ?c = "player_data s ! ci"
  let ?g = "\<lparr>gs_name = ''GearSet '' @ str_int (slot_idx + 1), slots = replicate (MAX_SLOTS - 1) 0\<rparr>"
  have "?c \<in> set (player_data s)" using find_char_bound[OF Some] by simp
  with all have old: "gearsets_standard ?c" by blast
  have upd: "gearsets_standard (?c\<lparr>gearSets := (gearSets ?c)[k := ?g]\<rparr>)" for k
    using old set_update_subset_insert[of "gearSets ?c" k ?g]
    by (auto simp: gearsets_standard_def)
  have app: "gearsets_standard (?c\<lparr>gearSets := gearSets ?c @ [?g]\<rparr>)"
    using old by (auto simp: gearsets_standard_def)
  show ?thesis
    using Some all standard_update[OF all upd] standard_update[OF all app]
    by (simp add: handle_create_gearset_def Let_def with_char_def persist_def sendall_def
        split: option.splits)
qed

lemma name_gearset_standard:
  assumes all: "\<forall>c \<in> set (player_data s). gearsets_standard c"
  shows "\<forall>c \<in> set (player_data (snd (handle_name_gearset slot_idx new_name raw_data s))).
           gearsets_standard c"
proof (cases "find_char (current_character s) (player_data s)")
  case None
  then show ?thesis using all by (simp add: handle_name_gearset_def)
next
  case (Some ci)
  let ?c = "player_data s ! ci"
  have "?c \<in> set (player_data s)" using find_char_bound[OF Some] by simp
  with all have old: "gearsets_standard ?c" by blast
  have upd: "gearsets_standard
      (?c\<lparr>gearSets := (gearSets ?c)[k := (gearSets ?c ! k)\<lparr>gs_name := new_name\<rparr>]\<rparr>)"
    if "k < length (gearSets ?c)" for k
    using old that set_update_subset_insert[of "gearSets ?c" k "(gearSets ?c ! k)\<lparr>gs_name := new_name\<rparr>"]
    by (auto simp: gearsets_standard_def)
  show ?thesis
  proof (cases "slot_idx < int (length (gearSets ?c))")
    case False
    then show ?thesis using Some all by (simp add: handle_name_gearset_def Let_def)
  next
    case True
    show ?thesis
    proof (cases "py_index slot_idx (length (gearSets ?c))")
      case None
      then show ?thesis using Some True all by (simp add: handle_name_gearset_def Let_def)
    next
      case (Some k)
      from py_index_Some[OF Some] have "k < length (gearSets ?c)" .
      from standard_update[OF all upd[OF this]] show ?thesis
        using \<open>find_char (current_character s) (player_data s) = Some ci\<close> True Some
        by (simp add: handle_name_gearset_def Let_def with_char_def persist_def sendall_def)
    qed
  qed
qed

lemma apply_gearset_standard:
  assumes all: "\<forall>c \<in> set (player_data s). gearsets_standard c"
  shows "\<forall>c \<in> set (player_data (snd (handle_apply_gearset slot_idx raw_data s))).
           gearsets_standard c"
proof (cases "find_char (current_character s) (player_data s)")
  case None
  then show ?thesis using all by (simp add: handle_apply_gearset_def)
next
  case (Some ci)
  let ?c = "player_data s ! ci"
  have "?c \<in> set (player_data s)" using find_char_bound[OF Some] by simp
  with all have old: "gearsets_standard ?c" by blast
  have upd: "gearsets_standard
      (?c\<lparr>gearSets := (gearSets ?c)[k := (gearSets ?c ! k)\<lparr>slots := map gearID (equippedGears ?c)\<rparr>]\<rparr>)"
    if "length (equippedGears ?c) = MAX_SLOTS - 1" for k
    using old that
      set_update_subset_insert[of "gearSets ?c" k
        "(gearSets ?c ! k)\<lparr>slots := map gearID (equippedGears ?c)\<rparr>"]
    by (auto simp: gearsets_standard_def)
  show ?thesis
  proof (cases "length (equippedGears ?c) = MAX_SLOTS - 1")
    case False
    then show ?thesis using Some all by (simp add: handle_apply_gearset_def Let_def)
  next
    case True
    from standard_update[OF all upd[OF True]] show ?thesis
      using Some all True
      by (simp add: handle_apply_gearset_def Let_def with_char_def persist_def sendall_def
          split: option.splits)
  qed
qed

text \<open>
  C9. For a character of the save whose gear-sets have the standard slot count, and a
  decoded set index \<open>slot_idx\<close> (unsigned): when gear-set \<open>slot_idx\<close> exists and its slot count
  equals the equipped slot count, the handler overwrites the set's slot list with the gear
  ids now in \<open>equippedGears\<close>, writes the save and echoes the request; when the counts differ
  or the set does not exist, it returns with no mutation, no write and no reply.
\<close>

theorem apply_gearset_counts:
  assumes "find_char (current_character s) (player_data s) = Some ci"
      and "0 \<le> slot_idx"
      and "gearsets_standard (player_data s ! ci)"
  shows "handle_apply_gearset slot_idx raw_data s =
     (let c = player_data s ! ci;
          gs = gearSets c
      in if slot_idx < int (length gs) \<and>
            length (slots (gs ! nat slot_idx)) = length (equippedGears c) then
           (let chars' = (player_data s)[ci := c\<lparr>gearSets :=
                   gs[nat slot_idx := (gs ! nat slot_idx)\<lparr>slots := map gearID (equippedGears c)\<rparr>]\<rparr>]
            in (Completed,
                s\<lparr>player_data := chars', saved := saved s @ [chars'],
                  sent := sent s @ [Raw raw_data]\<rparr>))
         else (Returned, s))"
proof -
  let ?c = "player_data s ! ci"
  have "length (slots (gearSets ?c ! nat slot_idx)) = MAX_SLOTS - 1"
    if "slot_idx < int (length (gearSets ?c))"
  proof -
    from that assms(2) have "nat slot_idx < length (gearSets ?c)" by simp
    then have "gearSets ?c ! nat slot_idx \<in> set (gearSets ?c)" by simp
    with assms(3) show ?thesis by (simp add: gearsets_standard_def)
  qed
  then show ?thesis
    unfolding handle_apply_gearset_result[OF assms(1) assms(2)]
    by (auto simp: Let_def)
qed

theorem apply_gearset_counts_witness:
  "handle_apply_gearset 0 [0, 198, 0, 1, 0]
     (solo (hero\<lparr>equippedGears := six_gears, gearSets := one_gearset\<rparr>)) =
     (Completed,
      \<lparr>player_data = [hero\<lparr>equippedGears := six_gears,
          gearSets := [\<lparr>gs_name = ''GearSet 1'', slots = [1, 2, 3, 4, 5, 6]\<rparr>]\<rparr>],
       current_character = ''hero'',
       saved = [[hero\<lparr>equippedGears := six_gears,
          gearSets := [\<lparr>gs_name = ''GearSet 1'', slots = [1, 2, 3, 4, 5, 6]\<rparr>]\<rparr>]],
       sent = [Raw [0, 198, 0, 1, 0]]\<rparr>) \<and>
   handle_apply_gearset 1 [0, 198, 0, 1, 32]
     (solo (hero\<lparr>equippedGears := six_gears, gearSets := one_gearset\<rparr>)) =
     (Returned, solo (hero\<lparr>equippedGears := six_gears, gearSets := one_gearset\<rparr>)) \<and>
   handle_apply_gearset 0 [0, 198, 0, 1, 0] (solo (hero\<lparr>gearSets := one_gearset\<rparr>)) =
     (Returned, solo (hero\<lparr>gearSets := one_gearset\<rparr>)) \<and>
   handle_create_gearset 0 [0, 199, 0, 1, 0] (solo hero) =
     (Completed,
      \<lparr>player_data = [hero\<lparr>gearSets := one_gearset\<rparr>], current_character = ''hero'',
       saved = [[hero\<lparr>gearSets := one_gearset\<rparr>]], sent = [Raw [0, 199, 0, 1, 0]]\<rparr>)"
proof -
  let ?a = "solo (hero\<lparr>equippedGears := six_gears, gearSets := one_gearset\<rparr>)"
  let ?b = "solo (hero\<lparr>gearSets := one_gearset\<rparr>)"
  have ha: "find_char (current_character ?a) (player_data ?a) = Some 0"
    by (simp add: solo_def hero_def find_char_def)
  have hb: "find_char (current_character ?b) (player_data ?b) = Some 0"
    by (simp add: solo_def hero_def find_char_def)
  have sa: "gearsets_standard (player_data ?a ! 0)"
    by (simp add: solo_def hero_def gearsets_standard_def one_gearset_def MAX_SLOTS_def)
  have sb: "gearsets_standard (player_data ?b ! 0)"
    by (simp add: solo_def hero_def gearsets_standard_def one_gearset_def MAX_SLOTS_def)
  have z: "(0::int) \<le> 0" "(0::int) \<le> 1" by simp_all
  have cr: "handle_create_gearset 0 [0, 199, 0, 1, 0] (solo hero) =
     (Completed,
      \<lparr>player_data = [hero\<lparr>gearSets := one_gearset\<rparr>], current_character = ''hero'',
       saved = [[hero\<lparr>gearSets := one_gearset\<rparr>]], sent = [Raw [0, 199, 0, 1, 0]]\<rparr>)"
    by (simp add: handle_create_gearset_def solo_def hero_def find_char_def Let_def with_char_def
        persist_def sendall_def one_gearset_def MAX_SLOTS_def str_int_def numeral_eq_Suc)
  show ?thesis
    using apply_gearset_counts[OF ha z(1) sa, where raw_data = "[0, 198, 0, 1, 0]"]
          apply_gearset_counts[OF ha z(2) sa, where raw_data = "[0, 198, 0, 1, 32]"]
          apply_gearset_counts[OF hb z(1) sb, where raw_data = "[0, 198, 0, 1, 0]"]
          cr
    by (simp add: solo_def hero_def six_gears_def gear_of_def one_gearset_def Let_def)
qed

section \<open>Starting a forge session\<close>

lemma deduct_material_Nil: "deduct_material m u [] = [\<lparr>materialID = m, mat_count = 0\<rparr>]"
  by (simp add: deduct_material_def)

lemma deduct_material_Cons:
  "deduct_material m u (e # mats) =
     (if materialID e = m then e\<lparr>mat_count := max 0 (mat_count e - u)\<rparr> # mats
      else e # deduct_material m u mats)"
  by (simp add: deduct_material_def split: option.splits)

lemma stock_count_deduct:
  "stock_count (deduct_material m u mats) =
     (stock_count mats)(m \<mapsto> (case stock_count mats m of None \<Rightarrow> 0 | Some n \<Rightarrow> max 0 (n - u)))"
proof (induction mats)
  case Nil
  show ?case by (simp add: deduct_material_Nil stock_count_def)
next
  case (Cons e mats)
  then show ?case
    by (auto simp: deduct_material_Cons stock_count_def fun_upd_twist)
qed

lemma stock_count_fold:
  "distinct (map fst M) \<Longrightarrow>
   stock_count (fold (\<lambda>(mat_id, used). deduct_material mat_id used) M mats) x =
     (case map_of M x of
        None \<Rightarrow> stock_count mats x
      | Some u \<Rightarrow> Some (case stock_count mats x of None \<Rightarrow> 0 | Some n \<Rightarrow> max 0 (n - u)))"
proof (induction M arbitrary: mats)
  case Nil
  show ?case by simp
next
  case (Cons p M)
  obtain m u where p: "p = (m, u)" by (cases p)
  from Cons.prems p have d: "distinct (map fst M)" and nin: "m \<notin> fst ` set M" by auto
  from nin have none: "map_of M m = None" by (simp add: map_of_eq_None_iff)
  show ?case
    using Cons.IH[OF d, of "deduct_material m u mats"] none
    by (simp add: p stock_count_deduct split: option.splits)
qed

lemma keys_dict_set: "fst ` set (dict_set k v d) = insert k (fst ` set d)"
  by (induction d) auto

lemma distinct_dict_set: "distinct (map fst d) \<Longrightarrow> distinct (map fst (dict_set k v d))"
proof (induction d)
  case Nil
  show ?case by simp
next
  case (Cons p d)
  then show ?case by (auto simp: keys_dict_set)
qed

lemma distinct_fold_dict_set:
  "distinct (map fst d) \<Longrightarrow> distinct (map fst (fold (\<lambda>(k, v). dict_set k v) ps d))"
  by (induction ps arbitrary: d) (auto simp: distinct_dict_set)

lemma distinct_read_materials: "distinct (map fst (read_materials pairs))"
  by (simp add: read_materials_def distinct_fold_dict_set)

text \<open>The dict holds, for each material id, the count of the last pair read for it.\<close>

lemma map_of_fold_pairs:
  "map_of (fold (\<lambda>(k, v). dict_set k v) ps acc) = map_of acc ++ map_of (rev ps)"
proof (induction ps arbitrary: acc)
  case Nil
  show ?case by simp
next
  case (Cons p ps)
  obtain k v where p: "p = (k, v)" by (cases p)
  show ?case
    by (simp add: p Cons.IH map_of_dict_set map_add_upd_left fun_upd_def map_add_def
        fun_eq_iff split: option.splits)
qed

lemma read_materials_lookup: "map_of (read_materials pairs) = map_of (rev pairs)"
  by (simp add: read_materials_def map_of_fold_pairs)

lemma deduct_consumable_Nil: "deduct_consumable cid [] = [\<lparr>consumableID = cid, con_count = 0\<rparr>]"
  by (simp add: deduct_consumable_def)

lemma deduct_consumable_Cons:
  "deduct_consumable cid (e # cons) =
     (if consumableID e = cid then e\<lparr>con_count := max 0 (con_count e - 1)\<rparr> # cons
      else e # deduct_consumable cid cons)"
  by (simp add: deduct_consumable_def split: option.splits)

lemma cons_count_deduct:
  "cons_count (deduct_consumable cid cons) =
     (cons_count cons)(cid \<mapsto> (case cons_count cons cid of None \<Rightarrow> 0 | Some n \<Rightarrow> max 0 (n - 1)))"
proof (induction cons)
  case Nil
  show ?case by (simp add: deduct_consumable_Nil cons_count_def)
next
  case (Cons e cons)
  then show ?case
    by (auto simp: deduct_consumable_Cons cons_count_def fun_upd_twist)
qed

lemma cons_count_fold:
  "distinct (map snd zs) \<Longrightarrow>
   cons_count (fold (\<lambda>(flag, cid) cons. if flag then deduct_consumable cid cons else cons) zs cons) x =
     (if (True, x) \<in> set zs
      then Some (case cons_count cons x of None \<Rightarrow> 0 | Some n \<Rightarrow> max 0 (n - 1))
      else cons_count cons x)"
proof (induction zs arbitrary: cons)
  case Nil
  show ?case by simp
next
  case (Cons z zs)
  obtain flag cid where z: "z = (flag, cid)" by (cases z)
  from Cons.prems z have d: "distinct (map snd zs)" and nin: "cid \<notin> snd ` set zs" by auto
  from nin have nz: "\<And>b. (b, cid) \<notin> set zs" by force
  show ?case
  proof (cases flag)
    case True
    show ?thesis
      using Cons.IH[OF d, of "deduct_consumable cid cons"] nz True
      by (auto simp: z cons_count_deduct)
  next
    case False
    show ?thesis
      using Cons.IH[OF d, of cons] nz False
      by (auto simp: z)
  qed
qed

text \<open>
  C4. A start-forge request decoding primary id \<open>p\<close>, the material pairs \<open>pairs\<close> (the dict
  \<open>M = read_materials pairs\<close>) and the consumable flags, for a character of the save, runs
  to completion. For every material id listed in \<open>M\<close> with amount \<open>used\<close> the stock count
  becomes \<open>max 0 (n - used)\<close> where it was \<open>n\<close>, and a zero-count entry is recorded where the
  material was absent; the other materials keep their counts. Every consumable whose flag
  is set loses one unit, clamped at zero (a zero-count entry where it was absent), the
  four consumable ids being distinct; the others keep their counts. The session becomes
  \<open>hasSession = True\<close>, \<open>primary = p\<close>, the in-progress status and duration 60000, and the
  save is written. The witness is the scenario of the spec: primary 7, materials
  \<open>{12: 3}\<close>, no flags, five units of material 12 in stock, two afterwards.
\<close>

theorem start_forge_deducts:
  assumes "find_char (current_character s) (player_data s) = Some ci"
      and "distinct [class_3_var_1415 K, class_3_var_2082 K, class_3_var_1374 K, class_3_var_1462 K]"
  shows "fst (start_forge_packet K p pairs flags s) = Completed \<and>
     (let s' = snd (start_forge_packet K p pairs flags s);
          c = player_data s ! ci;
          c' = player_data s' ! ci;
          M = read_materials pairs;
          ids = [class_3_var_1415 K, class_3_var_2082 K, class_3_var_1374 K, class_3_var_1462 K]
      in (\<forall>m. stock_count (materials c') m =
               (case map_of M m of
                  None \<Rightarrow> stock_count (materials c) m
                | Some used \<Rightarrow>
                    Some (case stock_count (materials c) m of
                            None \<Rightarrow> 0 | Some n \<Rightarrow> max 0 (n - used)))) \<and>
         (\<forall>cid. cons_count (consumables c') cid =
               (if (True, cid) \<in> set (zip flags ids)
                then Some (case cons_count (consumables c) cid of
                             None \<Rightarrow> 0 | Some n \<Rightarrow> max 0 (n - 1))
                else cons_count (consumables c) cid)) \<and>
         hasSession (magicForge c') \<and> primary (magicForge c') = p \<and>
         status (magicForge c') = class_111_const_286 K \<and> duration (magicForge c') = 60000 \<and>
         saved s' = saved s @ [player_data s'] \<and> sent s' = sent s)"
proof -
  let ?ids = "[class_3_var_1415 K, class_3_var_2082 K, class_3_var_1374 K, class_3_var_1462 K]"
  have ci: "ci < length (player_data s)"
    using assms(1) by (rule find_char_bound)
  have dz: "distinct (map snd (zip flags ?ids))"
    using assms(2) by (simp only: map_snd_zip_take distinct_take)
  show ?thesis
    using assms(1) ci
    by (simp add: start_forge_packet_def Let_def with_char_def persist_def
        stock_count_fold[OF distinct_read_materials] cons_count_fold[OF dz] del: distinct.simps)
qed

theorem start_forge_deducts_witness:
  "start_forge_packet K_demo 7 [(12, 3)] [False, False, False, False]
     (solo (hero\<lparr>materials := [\<lparr>materialID = 12, mat_count = 5\<rparr>]\<rparr>)) =
     (Completed,
      \<lparr>player_data = [hero\<lparr>materials := [\<lparr>materialID = 12, mat_count = 2\<rparr>],
                             magicForge := forging\<rparr>],
       current_character = ''hero'',
       saved = [[hero\<lparr>materials := [\<lparr>materialID = 12, mat_count = 2\<rparr>],
                      magicForge := forging\<rparr>]],
       sent = []\<rparr>) \<and>
   stock_count (materials (player_data (snd (start_forge_packet K_demo 7 [(12, 3)]
       [False, False, False, False]
       (solo (hero\<lparr>materials := [\<lparr>materialID = 12, mat_count = 5\<rparr>]\<rparr>)))) ! 0)) 12 = Some 2"
proof -
  let ?s = "solo (hero\<lparr>materials := [\<lparr>materialID = 12, mat_count = 5\<rparr>]\<rparr>)"
  have h1: "find_char (current_character ?s) (player_data ?s) = Some 0"
    by (simp add: solo_def hero_def find_char_def)
  have h2: "distinct [class_3_var_1415 K_demo, class_3_var_2082 K_demo,
                      class_3_var_1374 K_demo, class_3_var_1462 K_demo]"
    by (simp add: K_demo_def)
  have e: "start_forge_packet K_demo 7 [(12, 3)] [False, False, False, False] ?s =
     (Completed,
      \<lparr>player_data = [hero\<lparr>materials := [\<lparr>materialID = 12, mat_count = 2\<rparr>],
                             magicForge := forging\<rparr>],
       current_character = ''hero'',
       saved = [[hero\<lparr>materials := [\<lparr>materialID = 12, mat_count = 2\<rparr>],
                      magicForge := forging\<rparr>]],
       sent = []\<rparr>)"
    by (simp add: start_forge_packet_def read_materials_def deduct_material_def solo_def
        hero_def forging_def idle_forge_def find_char_def K_demo_def Let_def with_char_def
        persist_def)
  have m: "map_of (read_materials [(12, 3)]) (12::int) = Some (3::int)"
    by (simp add: read_materials_def)
  have st: "stock_count (materials (player_data ?s ! 0)) 12 = Some 5"
    by (simp add: solo_def hero_def stock_count_def)
  from start_forge_deducts[OF h1 h2, where p = 7 and pairs = "[(12, 3)]"
      and flags = "[False, False, False, False]"]
  have "stock_count (materials (player_data (snd (start_forge_packet K_demo 7 [(12, 3)]
       [False, False, False, False] ?s)) ! 0)) 12 = Some 2"
    by (simp add: Let_def m st)
  with e show ?thesis by simp
qed

section \<open>Rune socketing: charms\<close>

lemma find_index_update_same:
  "find_index P xs = Some i \<Longrightarrow> P y \<Longrightarrow> find_index P (xs[i := y]) = Some i"
proof (induction xs arbitrary: i)
  case Nil
  then show ?case by simp
next
  case (Cons x xs)
  then show ?case by (cases i) (auto split: if_splits)
qed

lemma find_char_update:
  "find_char nm chars = Some ci \<Longrightarrow> name c' = nm \<Longrightarrow> find_char nm (chars[ci := c']) = Some ci"
  unfolding find_char_def by (rule find_index_update_same)

lemma fit_slots_id: "length eq = MAX_SLOTS - 1 \<Longrightarrow> fit_slots eq = eq"
  by (simp add: fit_slots_def pad_to_def Let_def)

lemma consume_charm_Nil: "consume_charm x [] = []"
  by (simp add: consume_charm_def)

lemma consume_charm_Cons:
  "consume_charm x (c # cs) =
     (if charmID c = x then (if count c - 1 \<le> 0 then cs else c\<lparr>count := count c - 1\<rparr> # cs)
      else c # consume_charm x cs)"
proof (cases "charmID c = x")
  case True
  then show ?thesis by (simp add: consume_charm_def Let_def)
next
  case False
  show ?thesis
  proof (cases "find_index (\<lambda>c. charmID c = x) cs")
    case None
    with False show ?thesis by (simp add: consume_charm_def)
  next
    case (Some i)
    from find_index_Some[OF Some] have "charmID (cs ! i) = x" by simp
    with False have "c \<noteq> (cs ! i)\<lparr>count := count (cs ! i) - 1\<rparr>" by auto
    with False Some show ?thesis by (simp add: consume_charm_def Let_def)
  qed
qed

lemma return_charm_Nil: "return_charm x [] = [\<lparr>charmID = x, count = 1\<rparr>]"
  by (simp add: return_charm_def)

lemma return_charm_Cons:
  "return_charm x (c # cs) =
     (if charmID c = x then c\<lparr>count := count c + 1\<rparr> # cs else c # return_charm x cs)"
  by (simp add: return_charm_def split: option.splits)

lemma charm_count_return:
  "charm_count (return_charm x cs) =
     (charm_count cs)(x \<mapsto> (case charm_count cs x of None \<Rightarrow> 1 | Some n \<Rightarrow> n + 1))"
proof (induction cs)
  case Nil
  show ?case by (simp add: return_charm_Nil charm_count_def)
next
  case (Cons c cs)
  then show ?case by (auto simp: return_charm_Cons charm_count_def fun_upd_twist)
qed

lemma charm_ids_consume: "charmID ` set (consume_charm x cs) \<subseteq> charmID ` set cs"
  by (induction cs) (auto simp: consume_charm_Nil consume_charm_Cons)

lemma distinct_consume:
  "distinct (map charmID cs) \<Longrightarrow> distinct (map charmID (consume_charm x cs))"
proof (induction cs)
  case Nil
  show ?case by (simp add: consume_charm_Nil)
next
  case (Cons c cs)
  then show ?case using charm_ids_consume[of x cs] by (auto simp: consume_charm_Cons)
qed

lemma charm_ids_return: "charmID ` set (return_charm x cs) = insert x (charmID ` set cs)"
  by (induction cs) (auto simp: return_charm_Nil return_charm_Cons)

lemma distinct_return:
  "distinct (map charmID cs) \<Longrightarrow> distinct (map charmID (return_charm x cs))"
proof (induction cs)
  case Nil
  show ?case by (simp add: return_charm_Nil)
next
  case (Cons c cs)
  then show ?case using charm_ids_return[of x cs] by (auto simp: return_charm_Cons)
qed

lemma charm_count_None: "charm_count cs x = None \<longleftrightarrow> x \<notin> charmID ` set cs"
  by (auto simp: charm_count_def map_of_eq_None_iff image_iff)

lemma charm_count_Cons: "charm_count (c # cs) = (charm_count cs)(charmID c \<mapsto> count c)"
  by (simp add: charm_count_def)

lemma charm_count_consume:
  "distinct (map charmID cs) \<Longrightarrow>
   charm_count (consume_charm x cs) =
     (case charm_count cs x of
        None \<Rightarrow> charm_count cs
      | Some n \<Rightarrow> if n - 1 \<le> 0 then (charm_count cs)(x := None) else (charm_count cs)(x \<mapsto> n - 1))"
proof (induction cs)
  case Nil
  show ?case by (simp add: consume_charm_Nil charm_count_def)
next
  case (Cons c cs)
  show ?case
  proof (cases "charmID c = x")
    case True
    with Cons.prems have "x \<notin> charmID ` set cs" by auto
    then have none: "charm_count cs x = None" by (simp add: charm_count_None)
    show ?thesis
      using True none
      by (auto simp: consume_charm_Cons charm_count_Cons fun_upd_def)
  next
    case False
    from Cons.prems have d: "distinct (map charmID cs)" by simp
    show ?thesis
      using False Cons.IH[OF d]
      by (auto simp: consume_charm_Cons charm_count_Cons fun_upd_twist split: option.splits)
  qed
qed

lemma remover_round_trip:
  assumes d: "distinct (map charmID cs)"
      and r: "charm_count cs r = Some n" "0 < n" "r \<noteq> 96"
      and m: "charm_count cs 96 = Some m" "1 \<le> m"
  shows "charm_count (consume_charm 96 (return_charm r (consume_charm r cs))) =
         (charm_count cs)(96 := (if m = 1 then None else Some (m - 1)))"
proof -
  let ?c1 = "consume_charm r cs"
  let ?c2 = "return_charm r ?c1"
  have d1: "distinct (map charmID ?c1)" using d by (rule distinct_consume)
  have d2: "distinct (map charmID ?c2)" using d1 by (rule distinct_return)
  have c1: "charm_count ?c1 = (if n = 1 then (charm_count cs)(r := None) else (charm_count cs)(r \<mapsto> n - 1))"
    using r by (auto simp: charm_count_consume[OF d])
  have c2: "charm_count ?c2 = charm_count cs"
  proof
    fix x
    show "charm_count ?c2 x = charm_count cs x"
      using r by (auto simp: charm_count_return c1)
  qed
  show ?thesis
    using m by (auto simp: charm_count_consume[OF d2] c2)
qed

lemma rune_step:
  assumes ch: "find_char (current_character s) (player_data s) = Some ci"
      and sl: "find_index (\<lambda>g. gearID g = gear_id \<and> tier g = gear_tier)
                 (fit_slots (equippedGears (player_data s ! ci))) = Some slot"
      and rs: "1 \<le> rune_slot" "rune_slot \<le> 3"
      and ln: "nat (rune_slot - 1) < length (runes (fit_slots (equippedGears (player_data s ! ci)) ! slot))"
      and sy: "sync_inventory gear_id gear_tier (nat (rune_slot - 1))
                 ((fit_slots (equippedGears (player_data s ! ci)) ! slot)
                    \<lparr>runes := (runes (fit_slots (equippedGears (player_data s ! ci)) ! slot))
                       [nat (rune_slot - 1) := (if rune_id = 96 then 0 else rune_id)]\<rparr>)
                 (inventoryGears (player_data s ! ci)) = Some inv'"
  shows "handle_rune_packet K entity_id gear_id gear_tier rune_id rune_slot s =
     (let c = player_data s ! ci;
          eq = fit_slots (equippedGears c);
          idx = nat (rune_slot - 1);
          g = eq ! slot;
          g' = g\<lparr>runes := (runes g)[idx := (if rune_id = 96 then 0 else rune_id)]\<rparr>;
          chars' = (player_data s)[ci := c\<lparr>equippedGears := eq[slot := g'],
                      charms := socket_charms rune_id (runes g ! idx) (charms c),
                      inventoryGears := inv'\<rparr>]
      in (Completed,
          s\<lparr>player_data := chars', saved := saved s @ [chars'],
            sent := sent s @ [Packet 0xB0
               [Method4 entity_id, Method6 gear_id (GEARTYPE_BITSTOSEND K),
                Method6 gear_tier (GearType_const_176 K),
                Method6 rune_id (class_64_const_101 K),
                Method6 rune_slot (class_1_const_765 K)]]\<rparr>))"
  using ch sl rs ln sy
  by (simp add: handle_rune_packet_def Let_def with_char_def persist_def sendall_def)

lemma sync_inventory_Some:
  assumes "\<forall>item \<in> set inv0. gearID item = gear_id \<and> tier item = gear_tier \<longrightarrow> idx < length (runes item)"
  shows "\<exists>inv'. sync_inventory gear_id gear_tier idx g' inv0 = Some inv'"
proof (cases "find_index (\<lambda>item. gearID item = gear_id \<and> tier item = gear_tier) inv0")
  case None
  then show ?thesis by (simp add: sync_inventory_def)
next
  case (Some p)
  from find_index_Some[OF Some] have "p < length inv0" "gearID (inv0 ! p) = gear_id \<and> tier (inv0 ! p) = gear_tier"
    by auto
  with assms have "idx < length (runes (inv0 ! p))" by (metis nth_mem)
  with Some show ?thesis by (simp add: sync_inventory_def)
qed

lemma sync_inventory_lengths:
  assumes "sync_inventory gear_id gear_tier idx g' inv0 = Some inv'"
      and "\<forall>item \<in> set inv0. gearID item = gear_id \<and> tier item = gear_tier \<longrightarrow> idx < length (runes item)"
      and "idx < length (runes g')"
  shows "\<forall>item \<in> set inv'. gearID item = gear_id \<and> tier item = gear_tier \<longrightarrow> idx < length (runes item)"
proof (cases "find_index (\<lambda>item. gearID item = gear_id \<and> tier item = gear_tier) inv0")
  case None
  with assms show ?thesis by (auto simp: sync_inventory_def)
next
  case (Some p)
  with assms(1) have inv': "inv' = inv0[p := (inv0 ! p)\<lparr>runes := (runes (inv0 ! p))[idx := runes g' ! idx]\<rparr>]"
    by (auto simp: sync_inventory_def split: if_splits)
  show ?thesis
  proof
    fix item assume "item \<in> set inv'"
    then have "item \<in> set inv0 \<or> item = (inv0 ! p)\<lparr>runes := (runes (inv0 ! p))[idx := runes g' ! idx]\<rparr>"
      unfolding inv' using set_update_subset_insert[of inv0 p] by auto
    moreover from find_index_Some[OF Some] assms(2) have "idx < length (runes (inv0 ! p))"
      by (metis nth_mem)
    ultimately show "gearID item = gear_id \<and> tier item = gear_tier \<longrightarrow> idx < length (runes item)"
      using assms(2) by auto
  qed
qed

text \<open>
  C2. A character of the save has distinct charm ids, a positive count \<open>n\<close> of a real rune
  \<open>r\<close> (neither 0 nor 96) and \<open>m \<ge> 1\<close> removers (charm 96); an equipped item within the six
  standard slots matches the request's gear id and tier and has the addressed rune slot,
  as has every matching inventory item. Then the request that sockets \<open>r\<close> into that slot
  and the request with rune id 96 on the same slot both run to completion, and afterwards
  the charm mapping is the one before the first request except at 96: one remover is
  consumed, and the entry is gone when its count was 1. (The slot need not be empty for
  this; the claim's case is the empty slot.)
\<close>

theorem socket_then_remove_restores_charms:
  assumes ch: "find_char (current_character s) (player_data s) = Some ci"
      and sl: "find_index (\<lambda>g. gearID g = gear_id \<and> tier g = gear_tier)
                 (fit_slots (equippedGears (player_data s ! ci))) = Some slot"
      and rs: "rune_slot \<in> {1, 2, 3}"
      and ln: "nat (rune_slot - 1) < length (runes (fit_slots (equippedGears (player_data s ! ci)) ! slot))"
      and iv: "\<forall>item \<in> set (inventoryGears (player_data s ! ci)).
                 gearID item = gear_id \<and> tier item = gear_tier \<longrightarrow>
                 nat (rune_slot - 1) < length (runes item)"
      and d: "distinct (map charmID (charms (player_data s ! ci)))"
      and r: "r \<noteq> 96" "r \<noteq> 0" "charm_count (charms (player_data s ! ci)) r = Some n" "0 < n"
      and m: "charm_count (charms (player_data s ! ci)) 96 = Some m" "1 \<le> m"
  shows "fst (handle_rune_packet K entity_id gear_id gear_tier r rune_slot s) = Completed \<and>
     (let s1 = snd (handle_rune_packet K entity_id gear_id gear_tier r rune_slot s)
      in fst (handle_rune_packet K entity_id2 gear_id gear_tier 96 rune_slot s1) = Completed \<and>
         (let s2 = snd (handle_rune_packet K entity_id2 gear_id gear_tier 96 rune_slot s1)
          in charm_count (charms (player_data s2 ! ci)) =
               (charm_count (charms (player_data s ! ci)))
                 (96 := (if m = 1 then None else Some (m - 1)))))"
proof -
  let ?c = "player_data s ! ci"
  let ?eq = "fit_slots (equippedGears ?c)"
  let ?idx = "nat (rune_slot - 1)"
  let ?g = "?eq ! slot"
  let ?g1 = "?g\<lparr>runes := (runes ?g)[?idx := r]\<rparr>"
  have rs': "1 \<le> rune_slot" "rune_slot \<le> 3" using rs by auto
  have ci: "ci < length (player_data s)" using ch by (rule find_char_bound)
  from find_index_Some[OF sl] have slot: "slot < length ?eq" and gm: "gearID ?g = gear_id \<and> tier ?g = gear_tier"
    by auto
  obtain inv1 where sy1: "sync_inventory gear_id gear_tier ?idx ?g1 (inventoryGears ?c) = Some inv1"
    using sync_inventory_Some[OF iv] by blast
  have sy1': "sync_inventory gear_id gear_tier ?idx
      (?g\<lparr>runes := (runes ?g)[?idx := (if r = 96 then 0 else r)]\<rparr>) (inventoryGears ?c) = Some inv1"
    using sy1 r(1) by simp
  note step1 = rune_step[OF ch sl rs' ln sy1', of K entity_id]
  let ?c1 = "?c\<lparr>equippedGears := ?eq[slot := ?g1],
                 charms := consume_charm r (charms ?c), inventoryGears := inv1\<rparr>"
  let ?s1 = "snd (handle_rune_packet K entity_id gear_id gear_tier r rune_slot s)"
  have f1: "fst (handle_rune_packet K entity_id gear_id gear_tier r rune_slot s) = Completed"
    using step1 by (simp add: Let_def)
  have pd1: "player_data ?s1 = (player_data s)[ci := ?c1]"
    using step1 r(1) by (simp add: Let_def socket_charms_def)
  have cc1: "current_character ?s1 = current_character s"
    using step1 by (simp add: Let_def)
  have c1: "player_data ?s1 ! ci = ?c1" using pd1 ci by simp
  have ch1: "find_char (current_character ?s1) (player_data ?s1) = Some ci"
  proof -
    from find_index_Some[OF ch[unfolded find_char_def]] have "name ?c = current_character s" by simp
    then have "name ?c1 = current_character s" by simp
    with ch show ?thesis unfolding cc1 pd1 by (intro find_char_update)
  qed
  have len1: "length (?eq[slot := ?g1]) = MAX_SLOTS - 1" by (simp add: length_fit_slots)
  have eq1: "fit_slots (equippedGears (player_data ?s1 ! ci)) = ?eq[slot := ?g1]"
    unfolding c1 using fit_slots_id[OF len1] by simp
  have sl1: "find_index (\<lambda>g. gearID g = gear_id \<and> tier g = gear_tier)
               (fit_slots (equippedGears (player_data ?s1 ! ci))) = Some slot"
    unfolding eq1 using sl gm by (intro find_index_update_same) auto
  have g1: "fit_slots (equippedGears (player_data ?s1 ! ci)) ! slot = ?g1"
    unfolding eq1 using slot by simp
  have ln1: "?idx < length (runes (fit_slots (equippedGears (player_data ?s1 ! ci)) ! slot))"
    unfolding g1 using ln by simp
  have old1: "runes (fit_slots (equippedGears (player_data ?s1 ! ci)) ! slot) ! ?idx = r"
    unfolding g1 using ln by simp
  have iv1: "\<forall>item \<in> set (inventoryGears (player_data ?s1 ! ci)).
                 gearID item = gear_id \<and> tier item = gear_tier \<longrightarrow> ?idx < length (runes item)"
    unfolding c1 using sync_inventory_lengths[OF sy1 iv] ln by simp
  let ?g2 = "(fit_slots (equippedGears (player_data ?s1 ! ci)) ! slot)
               \<lparr>runes := (runes (fit_slots (equippedGears (player_data ?s1 ! ci)) ! slot))[?idx := 0]\<rparr>"
  obtain inv2 where sy2: "sync_inventory gear_id gear_tier ?idx ?g2
      (inventoryGears (player_data ?s1 ! ci)) = Some inv2"
    using sync_inventory_Some[OF iv1] by blast
  have sy2': "sync_inventory gear_id gear_tier ?idx
      ((fit_slots (equippedGears (player_data ?s1 ! ci)) ! slot)
         \<lparr>runes := (runes (fit_slots (equippedGears (player_data ?s1 ! ci)) ! slot))
            [?idx := (if (96::int) = 96 then 0 else 96)]\<rparr>)
      (inventoryGears (player_data ?s1 ! ci)) = Some inv2"
    using sy2 by simp
  note step2 = rune_step[OF ch1 sl1 rs' ln1 sy2', of K entity_id2]
  let ?s2 = "snd (handle_rune_packet K entity_id2 gear_id gear_tier 96 rune_slot ?s1)"
  have f2: "fst (handle_rune_packet K entity_id2 gear_id gear_tier 96 rune_slot ?s1) = Completed"
    using step2 by (simp add: Let_def)
  have len_pd1: "ci < length (player_data ?s1)" using pd1 ci by simp
  have ch2: "charms (player_data ?s2 ! ci) =
        socket_charms 96 r (charms (player_data ?s1 ! ci))"
    using step2 len_pd1 old1 by (simp add: Let_def)
  have "charms (player_data ?s2 ! ci) =
        consume_charm 96 (return_charm r (consume_charm r (charms ?c)))"
    unfolding ch2 c1 using r(1,2) by (simp add: socket_charms_def)
  then have "charm_count (charms (player_data ?s2 ! ci)) =
      (charm_count (charms ?c))(96 := (if m = 1 then None else Some (m - 1)))"
    using remover_round_trip[OF d r(3) r(4) r(1) m] by simp
  with f1 f2 show ?thesis by (simp add: Let_def)
qed

lemmas demo_defs = solo_def hero_def gear_of_def default_gear_def K_demo_def find_char_def
  Let_def with_char_def persist_def sendall_def py_index_def pad_to_def fit_slots_def
  MAX_SLOTS_def sync_inventory_def socket_charms_def consume_charm_def return_charm_def
  idle_forge_def

theorem socket_then_remove_restores_charms_witness:
  "fst (handle_rune_packet K_demo 7 5 1 20 1 (solo rune_ready)) = Completed \<and>
   fst (handle_rune_packet K_demo 7 5 1 96 1
          (snd (handle_rune_packet K_demo 7 5 1 20 1 (solo rune_ready)))) = Completed \<and>
   charm_count (charms (player_data (snd (handle_rune_packet K_demo 7 5 1 96 1
          (snd (handle_rune_packet K_demo 7 5 1 20 1 (solo rune_ready))))) ! 0)) =
     (charm_count (charms rune_ready))(96 \<mapsto> 1) \<and>
   charms (player_data (snd (handle_rune_packet K_demo 7 5 1 96 1
          (snd (handle_rune_packet K_demo 7 5 1 20 1 (solo rune_ready))))) ! 0) =
     [\<lparr>charmID = 96, count = 1\<rparr>, \<lparr>charmID = 20, count = 1\<rparr>]"
proof -
  let ?s = "solo rune_ready"
  have c0: "player_data ?s ! 0 = rune_ready" by (simp add: solo_def)
  have ch: "find_char (current_character ?s) (player_data ?s) = Some 0"
    by (simp add: solo_def rune_ready_def hero_def find_char_def)
  have fs: "fit_slots (equippedGears rune_ready) =
      [gear_of 5 1 [0, 0, 0], default_gear, default_gear, default_gear, default_gear, default_gear]"
    by (simp add: rune_ready_def hero_def fit_slots_def pad_to_def MAX_SLOTS_def Let_def
        numeral_eq_Suc)
  have sl: "find_index (\<lambda>g. gearID g = 5 \<and> tier g = 1)
              (fit_slots (equippedGears (player_data ?s ! 0))) = Some 0"
    unfolding c0 fs by (simp add: gear_of_def)
  have rs: "(1::int) \<in> {1, 2, 3}" by simp
  have ln: "nat (1 - 1) < length (runes (fit_slots (equippedGears (player_data ?s ! 0)) ! 0))"
    unfolding c0 fs by (simp add: gear_of_def)
  have iv: "\<forall>item \<in> set (inventoryGears (player_data ?s ! 0)).
              gearID item = 5 \<and> tier item = 1 \<longrightarrow> nat (1 - 1) < length (runes item)"
    unfolding c0 by (simp add: rune_ready_def hero_def gear_of_def)
  have d: "distinct (map charmID (charms (player_data ?s ! 0)))"
    unfolding c0 by (simp add: rune_ready_def hero_def)
  have r: "(20::int) \<noteq> 96" "(20::int) \<noteq> 0" "charm_count (charms (player_data ?s ! 0)) 20 = Some 1"
          "(0::int) < 1"
    unfolding c0 by (simp_all add: rune_ready_def hero_def charm_count_def)
  have m: "charm_count (charms (player_data ?s ! 0)) 96 = Some 2" "(1::int) \<le> 2"
    unfolding c0 by (simp_all add: rune_ready_def hero_def charm_count_def)
  have e: "charms (player_data (snd (handle_rune_packet K_demo 7 5 1 96 1
          (snd (handle_rune_packet K_demo 7 5 1 20 1 ?s)))) ! 0) =
     [\<lparr>charmID = 96, count = 1\<rparr>, \<lparr>charmID = 20, count = 1\<rparr>]"
    by (simp add: handle_rune_packet_def rune_ready_def demo_defs numeral_eq_Suc)
  from socket_then_remove_restores_charms[OF ch sl rs ln iv d r m, of K_demo 7 7] e
  show ?thesis
    unfolding c0 by (simp add: Let_def)
qed

section \<open>Collecting the forged charm\<close>

text \<open>
  The handlers write the field \<open>var_8\<close> of the forge session as 0 only: opening a session
  sets it to 0, a speed-up and a collect leave it as it is, and a cancel sets it to 0. A
  character without the \<^verbatim>\<open>magicForge\<close> key has the default 0. So \<open>var_8\<close> is 0 in every
  session that the handlers have opened.
\<close>

lemma start_forge_var_8:
  assumes "find_char (current_character s) (player_data s) = Some ci"
  shows "var_8 (magicForge
           (player_data (snd (start_forge_packet K primary_id pairs consumable_flags s)) ! ci)) = 0"
  using assms find_char_bound[OF assms]
  by (simp add: start_forge_packet_def Let_def with_char_def persist_def)

lemma speed_up_var_8:
  assumes "find_char (current_character s) (player_data s) = Some ci"
  shows "var_8 (magicForge (player_data (snd (magic_forge_packet K idols_to_spend s)) ! ci)) =
         var_8 (magicForge (player_data s ! ci))"
  using assms find_char_bound[OF assms]
  by (simp add: magic_forge_packet_def Let_def with_char_def persist_def sendall_def)

lemma cancel_forge_var_8:
  assumes "find_char (current_character s) (player_data s) = Some ci"
  shows "var_8 (magicForge (player_data (snd (cancel_forge_packet s)) ! ci)) = 0"
  using assms find_char_bound[OF assms]
  by (simp add: cancel_forge_packet_def Let_def with_char_def persist_def)

text \<open>
  C6. For a collect request processed for a character of the save while \<open>hasSession\<close> is
  true: the handler completes; when the session's primary id is positive, the charm list is
  the one before with one unit of that id added (the count of an existing entry
  incremented, a new entry with count 1 otherwise), and it is unchanged when the primary
  id is not positive; the session fields \<open>hasSession\<close>, \<open>primary\<close>, \<open>secondary\<close>, \<open>duration\<close>
  and \<open>status\<close>, and the fields \<open>usedlist\<close>, \<open>var_2675\<close>, \<open>var_2316\<close> and \<open>var_2434\<close>, are
  reset to zero or false; the save is written and the empty packet 0xe3 is sent. The field
  \<open>var_8\<close> keeps its value, which is 0 in every session the handlers have opened: there the
  session after the collect is the idle session.
\<close>

theorem collect_resets_session:
  assumes "find_char (current_character s) (player_data s) = Some ci"
      and "hasSession (magicForge (player_data s ! ci))"
  shows "collect_forge_charm s =
     (let c = player_data s ! ci;
          mf = magicForge c;
          charms' = (if primary mf \<le> 0 then charms c else return_charm (primary mf) (charms c));
          chars' = (player_data s)[ci := c\<lparr>charms := charms',
                      magicForge := idle_forge\<lparr>var_8 := var_8 mf\<rparr>\<rparr>]
      in (Completed,
          s\<lparr>player_data := chars', saved := saved s @ [chars'],
            sent := sent s @ [Packet 0xe3 []]\<rparr>)) \<and>
     (var_8 (magicForge (player_data s ! ci)) = 0 \<longrightarrow>
        magicForge (player_data (snd (collect_forge_charm s)) ! ci) = idle_forge) \<and>
     (0 < primary (magicForge (player_data s ! ci)) \<longrightarrow>
        charm_count (charms (player_data (snd (collect_forge_charm s)) ! ci)) =
          (charm_count (charms (player_data s ! ci)))
            (primary (magicForge (player_data s ! ci)) \<mapsto>
               (case charm_count (charms (player_data s ! ci))
                       (primary (magicForge (player_data s ! ci))) of
                  None \<Rightarrow> 1 | Some n \<Rightarrow> n + 1)))"
proof -
  let ?c = "player_data s ! ci"
  let ?mf = "magicForge ?c"
  have ci: "ci < length (player_data s)" using assms(1) by (rule find_char_bound)
  have reset: "?mf\<lparr>hasSession := False, primary := 0, secondary := 0, duration := 0,
                  usedlist := 0, var_2675 := 0, var_2316 := 0, var_2434 := False, status := 0\<rparr> =
               idle_forge\<lparr>var_8 := var_8 ?mf\<rparr>"
    by (simp add: idle_forge_def)
  have eq: "collect_forge_charm s =
     (Completed,
      s\<lparr>player_data := (player_data s)[ci := ?c\<lparr>
             charms := (if primary ?mf \<le> 0 then charms ?c else return_charm (primary ?mf) (charms ?c)),
             magicForge := idle_forge\<lparr>var_8 := var_8 ?mf\<rparr>\<rparr>],
        saved := saved s @ [(player_data s)[ci := ?c\<lparr>
             charms := (if primary ?mf \<le> 0 then charms ?c else return_charm (primary ?mf) (charms ?c)),
             magicForge := idle_forge\<lparr>var_8 := var_8 ?mf\<rparr>\<rparr>]],
        sent := sent s @ [Packet 0xe3 []]\<rparr>)"
    using assms
    by (simp add: collect_forge_charm_def Let_def with_char_def persist_def sendall_def
        reset[symmetric])
  have idle: "var_8 ?mf = 0 \<Longrightarrow> idle_forge\<lparr>var_8 := var_8 ?mf\<rparr> = idle_forge"
    by (simp add: idle_forge_def)
  show ?thesis
  proof (intro conjI impI)
    show "collect_forge_charm s =
     (let c = player_data s ! ci;
          mf = magicForge c;
          charms' = (if primary mf \<le> 0 then charms c else return_charm (primary mf) (charms c));
          chars' = (player_data s)[ci := c\<lparr>charms := charms',
                      magicForge := idle_forge\<lparr>var_8 := var_8 mf\<rparr>\<rparr>]
      in (Completed,
          s\<lparr>player_data := chars', saved := saved s @ [chars'],
            sent := sent s @ [Packet 0xe3 []]\<rparr>))"
      unfolding eq by (simp add: Let_def)
  next
    assume "var_8 ?mf = 0"
    from idle[OF this] show "magicForge (player_data (snd (collect_forge_charm s)) ! ci) = idle_forge"
      unfolding eq using ci by simp
  next
    assume "0 < primary ?mf"
    then show "charm_count (charms (player_data (snd (collect_forge_charm s)) ! ci)) =
          (charm_count (charms ?c))
            (primary ?mf \<mapsto>
               (case charm_count (charms ?c) (primary ?mf) of None \<Rightarrow> 1 | Some n \<Rightarrow> n + 1))"
      unfolding eq using ci by (simp add: charm_count_return)
  qed
qed

text \<open>
  The scenario of the spec: a session opened with primary id 7 (3 of 5 units of material 12
  used) is collected; the charms then hold one unit of charm 7 and the session is idle. A
  session with primary id 0 is cleared with the charms unchanged.
\<close>

theorem collect_resets_session_witness:
  "start_forge_packet K_demo 7 [(12, 3)] [False, False, False, False]
     (solo (hero\<lparr>materials := [\<lparr>materialID = 12, mat_count = 5\<rparr>]\<rparr>)) =
     (Completed,
      \<lparr>player_data = [hero\<lparr>materials := [\<lparr>materialID = 12, mat_count = 2\<rparr>],
                             magicForge := forging\<rparr>],
       current_character = ''hero'',
       saved = [[hero\<lparr>materials := [\<lparr>materialID = 12, mat_count = 2\<rparr>],
                      magicForge := forging\<rparr>]],
       sent = []\<rparr>) \<and>
   collect_forge_charm
     (solo (hero\<lparr>materials := [\<lparr>materialID = 12, mat_count = 2\<rparr>], magicForge := forging\<rparr>)) =
     (Completed,
      \<lparr>player_data = [hero\<lparr>materials := [\<lparr>materialID = 12, mat_count = 2\<rparr>],
                             charms := [\<lparr>charmID = 7, count = 1\<rparr>]\<rparr>],
       current_character = ''hero'',
       saved = [[hero\<lparr>materials := [\<lparr>materialID = 12, mat_count = 2\<rparr>],
                      charms := [\<lparr>charmID = 7, count = 1\<rparr>]\<rparr>]],
       sent = [Packet 0xe3 []]\<rparr>) \<and>
   collect_forge_charm
     (solo (hero\<lparr>charms := [\<lparr>charmID = 7, count = 1\<rparr>],
                 magicForge := forging\<lparr>primary := 0\<rparr>\<rparr>)) =
     (Completed,
      \<lparr>player_data = [hero\<lparr>charms := [\<lparr>charmID = 7, count = 1\<rparr>]\<rparr>],
       current_character = ''hero'',
       saved = [[hero\<lparr>charms := [\<lparr>charmID = 7, count = 1\<rparr>]\<rparr>]],
       sent = [Packet 0xe3 []]\<rparr>)"
proof -
  let ?a = "solo (hero\<lparr>materials := [\<lparr>materialID = 12, mat_count = 2\<rparr>], magicForge := forging\<rparr>)"
  let ?b = "solo (hero\<lparr>charms := [\<lparr>charmID = 7, count = 1\<rparr>],
                       magicForge := forging\<lparr>primary := 0\<rparr>\<rparr>)"
  have ha: "find_char (current_character ?a) (player_data ?a) = Some 0"
    by (simp add: solo_def hero_def find_char_def)
  have hb: "find_char (current_character ?b) (player_data ?b) = Some 0"
    by (simp add: solo_def hero_def find_char_def)
  have sa: "hasSession (magicForge (player_data ?a ! 0))"
    by (simp add: solo_def hero_def forging_def)
  have sb: "hasSession (magicForge (player_data ?b ! 0))"
    by (simp add: solo_def hero_def forging_def)
  have st: "start_forge_packet K_demo 7 [(12, 3)] [False, False, False, False]
     (solo (hero\<lparr>materials := [\<lparr>materialID = 12, mat_count = 5\<rparr>]\<rparr>)) =
     (Completed,
      \<lparr>player_data = [hero\<lparr>materials := [\<lparr>materialID = 12, mat_count = 2\<rparr>],
                             magicForge := forging\<rparr>],
       current_character = ''hero'',
       saved = [[hero\<lparr>materials := [\<lparr>materialID = 12, mat_count = 2\<rparr>],
                      magicForge := forging\<rparr>]],
       sent = []\<rparr>)"
    by (simp add: start_forge_packet_def read_materials_def deduct_material_def solo_def hero_def
        K_demo_def forging_def idle_forge_def find_char_def Let_def with_char_def persist_def)
  show ?thesis
    using collect_resets_session[OF ha sa, THEN conjunct1]
          collect_resets_session[OF hb sb, THEN conjunct1] st
    by (simp add: solo_def hero_def forging_def idle_forge_def Let_def return_charm_def)
qed

section \<open>Equip invariant\<close>

lemma has_copy_self: "e \<in> set inv0 \<Longrightarrow> has_copy inv0 e"
  by (auto simp: has_copy_def)

lemma has_copy_mono: "has_copy inv0 e \<Longrightarrow> set inv0 \<subseteq> set inv1 \<Longrightarrow> has_copy inv1 e"
  by (auto simp: has_copy_def)

lemma set_pad_to: "set (pad_to n eq) \<subseteq> insert default_gear (set eq)"
  by (auto simp: pad_to_def)

lemma set_fit_slots: "set (fit_slots eq) \<subseteq> insert default_gear (set eq)"
proof -
  have "set (fit_slots eq) \<subseteq> set (eq @ replicate (6 - length eq) default_gear)"
    unfolding fit_slots_take by (rule set_take_subset)
  then show ?thesis by auto
qed

lemma gear_synced_fit: "gear_synced eq inv0 \<Longrightarrow> gear_synced (fit_slots eq) inv0"
  using set_fit_slots[of eq] by (auto simp: gear_synced_def default_gear_def)

lemma distinct_filter_take:
  "distinct (filter Q xs) \<Longrightarrow> distinct (filter Q (take n xs))"
proof -
  assume "distinct (filter Q xs)"
  then have "distinct (filter Q (take n xs @ drop n xs))" by simp
  then show ?thesis unfolding filter_append by simp
qed

lemma distinct_fit:
  assumes "distinct (filter (\<lambda>x. x \<noteq> 0) (map gearID eq))"
  shows "distinct (filter (\<lambda>x. x \<noteq> 0) (map gearID (fit_slots eq)))"
proof -
  let ?k = "6 - length eq"
  have "filter (\<lambda>x. x \<noteq> 0) (map gearID (fit_slots eq)) =
        filter (\<lambda>x. x \<noteq> 0) (take 6 (map gearID eq)) @
        filter (\<lambda>x. x \<noteq> 0) (take (6 - length eq) (replicate ?k (0::int)))"
    by (simp add: fit_slots_take take_map default_gear_def)
  also have "filter (\<lambda>x. x \<noteq> 0) (take (6 - length eq) (replicate ?k (0::int))) = []"
    by simp
  finally show ?thesis using distinct_filter_take[OF assms, of 6] by simp
qed

lemma distinct_filter_nth:
  "distinct (filter Q (map f xs)) \<Longrightarrow> i < j \<Longrightarrow> j < length xs \<Longrightarrow> Q (f (xs ! i)) \<Longrightarrow>
   f (xs ! i) \<noteq> f (xs ! j)"
proof (induction xs arbitrary: i j)
  case Nil
  then show ?case by simp
next
  case (Cons x xs)
  from Cons.prems(2) obtain j' where j: "j = Suc j'" by (cases j) auto
  show ?case
  proof (cases i)
    case 0
    with Cons.prems j have "f x \<notin> set (filter Q (map f xs))" "j' < length xs" by auto
    then show ?thesis using 0 j Cons.prems(4) by (auto simp: image_iff)
  next
    case (Suc i')
    with Cons.prems j have "distinct (filter Q (map f xs))" "i' < j'" "j' < length xs" "Q (f (xs ! i'))"
      by (auto split: if_splits)
    from Cons.IH[OF this] show ?thesis using Suc j by simp
  qed
qed

lemma distinct_filter_nth_neq:
  assumes "distinct (filter Q (map f xs))" "i \<noteq> j" "i < length xs" "j < length xs" "Q (f (xs ! i))"
  shows "f (xs ! i) \<noteq> f (xs ! j)"
proof (cases "i < j")
  case True
  from distinct_filter_nth[OF assms(1) True assms(4) assms(5)] show ?thesis .
next
  case False
  with assms(2) have ji: "j < i" by simp
  show ?thesis
  proof
    assume e: "f (xs ! i) = f (xs ! j)"
    with assms(5) have "Q (f (xs ! j))" by simp
    from distinct_filter_nth[OF assms(1) ji assms(3) this] e show False by simp
  qed
qed

lemma sync_core:
  assumes sl: "find_index (\<lambda>g. gearID g = gear_id \<and> tier g = gear_tier) eq = Some slot"
      and pre: "gear_synced eq inv0"
      and dI: "distinct (map gearID inv0)"
      and dE: "distinct (filter (\<lambda>x. x \<noteq> 0) (map gearID eq))"
      and ln: "idx < length (runes (eq ! slot))"
      and sy: "sync_inventory gear_id gear_tier idx ((eq ! slot)\<lparr>runes := (runes (eq ! slot))[idx := v]\<rparr>) inv0 = Some inv'"
  shows "gear_synced (eq[slot := (eq ! slot)\<lparr>runes := (runes (eq ! slot))[idx := v]\<rparr>]) inv'"
proof -
  let ?g = "eq ! slot"
  let ?g' = "?g\<lparr>runes := (runes ?g)[idx := v]\<rparr>"
  let ?P = "\<lambda>item. gearID item = gear_id \<and> tier item = gear_tier"
  from find_index_Some[OF sl] have slot: "slot < length eq" and gm: "gearID ?g = gear_id" "tier ?g = gear_tier"
    by auto
  have gv: "runes ?g' ! idx = v" using ln by simp
  have inj: "\<And>a b. a \<in> set inv0 \<Longrightarrow> b \<in> set inv0 \<Longrightarrow> gearID a = gearID b \<Longrightarrow> a = b"
    using dI by (auto simp: distinct_map inj_on_def)
  show ?thesis
    unfolding gear_synced_def
  proof (intro ballI impI)
    fix e assume e: "e \<in> set (eq[slot := ?g'])" and nz: "gearID e \<noteq> 0"
    from e obtain j where j: "j < length eq" "e = eq[slot := ?g'] ! j"
      by (auto simp: in_set_conv_nth)
    show "has_copy inv' e"
    proof (cases "j = slot")
      case True
      with j slot have eg: "e = ?g'" by simp
      show ?thesis
      proof (cases "find_index ?P inv0")
        case None
        with sy have "inv' = inv0 @ [?g']" by (simp add: sync_inventory_def)
        with eg show ?thesis by (simp add: has_copy_self)
      next
        case (Some p)
        from find_index_Some[OF Some] have p: "p < length inv0" "gearID (inv0 ! p) = gear_id" by auto
        from Some sy have inv': "inv' = inv0[p := (inv0 ! p)\<lparr>runes := (runes (inv0 ! p))[idx := runes ?g' ! idx]\<rparr>]"
          by (auto simp: sync_inventory_def split: if_splits)
        from nz eg gm have "gearID ?g \<noteq> 0" by simp
        with pre slot have "has_copy inv0 ?g" by (auto simp: gear_synced_def)
        then obtain i where i: "i \<in> set inv0" "gearID i = gearID ?g" "runes i = runes ?g" "colors i = colors ?g"
          by (auto simp: has_copy_def)
        from inj[OF i(1) nth_mem[OF p(1)]] i(2) p(2) gm have ip: "i = inv0 ! p" by simp
        let ?u = "(inv0 ! p)\<lparr>runes := (runes (inv0 ! p))[idx := runes ?g' ! idx]\<rparr>"
        have "?u \<in> set inv'" unfolding inv' using p(1) by (simp add: set_update_memI)
        moreover have "gearID ?u = gearID e \<and> runes ?u = runes e \<and> colors ?u = colors e"
          using eg i ip gv p(2) gm by simp
        ultimately show ?thesis unfolding has_copy_def by blast
      qed
    next
      case False
      with j have ej: "e = eq ! j" by simp
      have ne: "gearID e \<noteq> gear_id"
      proof
        assume "gearID e = gear_id"
        with ej gm have same: "gearID (eq ! j) = gearID (eq ! slot)" by simp
        from nz ej have "gearID (eq ! j) \<noteq> 0" by simp
        from distinct_filter_nth_neq[OF dE False j(1) slot this] same show False by simp
      qed
      from pre nz ej j(1) have "has_copy inv0 e" by (auto simp: gear_synced_def)
      then obtain i where i: "i \<in> set inv0" "gearID i = gearID e" "runes i = runes e" "colors i = colors e"
        by (auto simp: has_copy_def)
      have "i \<in> set inv'"
      proof (cases "find_index ?P inv0")
        case None
        with sy have "inv' = inv0 @ [?g']" by (simp add: sync_inventory_def)
        with i(1) show ?thesis by simp
      next
        case (Some p)
        from find_index_Some[OF Some] have p: "p < length inv0" "gearID (inv0 ! p) = gear_id" by auto
        from Some sy have inv': "inv' = inv0[p := (inv0 ! p)\<lparr>runes := (runes (inv0 ! p))[idx := runes ?g' ! idx]\<rparr>]"
          by (auto simp: sync_inventory_def split: if_splits)
        from i(1) obtain q where q: "q < length inv0" "i = inv0 ! q" by (auto simp: in_set_conv_nth)
        with i(2) ne p(2) have "q \<noteq> p" by auto
        with q have "inv' ! q = i" "q < length inv'" unfolding inv' by simp_all
        then show ?thesis by (metis nth_mem)
      qed
      with i show ?thesis unfolding has_copy_def by blast
    qed
  qed
qed

lemma rune_completedD:
  assumes ch: "find_char (current_character s) (player_data s) = Some ci"
      and f: "fst (handle_rune_packet K entity_id gear_id gear_tier rune_id rune_slot s) = Completed"
  shows "\<exists>slot inv'.
      find_index (\<lambda>g. gearID g = gear_id \<and> tier g = gear_tier)
        (fit_slots (equippedGears (player_data s ! ci))) = Some slot \<and>
      1 \<le> rune_slot \<and> rune_slot \<le> 3 \<and>
      nat (rune_slot - 1) < length (runes (fit_slots (equippedGears (player_data s ! ci)) ! slot)) \<and>
      sync_inventory gear_id gear_tier (nat (rune_slot - 1))
        ((fit_slots (equippedGears (player_data s ! ci)) ! slot)
           \<lparr>runes := (runes (fit_slots (equippedGears (player_data s ! ci)) ! slot))
              [nat (rune_slot - 1) := (if rune_id = 96 then 0 else rune_id)]\<rparr>)
        (inventoryGears (player_data s ! ci)) = Some inv'"
  using f ch
  by (auto simp: handle_rune_packet_def Let_def split: option.splits if_splits)

text \<open>
  C1 (amended). For a character of the save: a single-gear-equip request that runs to
  completion leaves the item it wrote into the addressed slot with the requested gear id
  and as an entry of \<open>inventoryGears\<close>, and if before the request every equipped item with
  a non-zero gear id had an inventory entry with its gear id and identical runes and
  colors, so it has afterwards. A rune-socket request that runs to completion preserves
  the same invariant provided that, before the request, no gear id occurs twice in
  \<open>inventoryGears\<close> and no non-zero gear id occurs in two equipped slots.

  Rune lists shared through \<^verbatim>\<open>item.copy()\<close> do not affect this: the copies keep gear id and
  tier, so under the two provisos a shared list belongs to the socketed equipped item and
  to the inventory entry that the handler writes as well.
\<close>

theorem equip_and_rune_keep_sync:
  assumes ch: "find_char (current_character s) (player_data s) = Some ci"
  shows "(fst (handle_gear_packet K entity_id prefix slot1 gear_id s) = Completed \<longrightarrow>
           (let c = player_data s ! ci;
                c' = player_data (snd (handle_gear_packet K entity_id prefix slot1 gear_id s)) ! ci
            in (\<exists>k. py_index (slot1 - 1) (length (equippedGears c')) = Some k \<and>
                     gearID (equippedGears c' ! k) = gear_id \<and>
                     equippedGears c' ! k \<in> set (inventoryGears c')) \<and>
               (gear_synced (equippedGears c) (inventoryGears c) \<longrightarrow>
                gear_synced (equippedGears c') (inventoryGears c')))) \<and>
         (fst (handle_rune_packet K entity_id gear_id gear_tier rune_id rune_slot s) = Completed \<and>
          gear_synced (equippedGears (player_data s ! ci)) (inventoryGears (player_data s ! ci)) \<and>
          distinct (map gearID (inventoryGears (player_data s ! ci))) \<and>
          distinct (filter (\<lambda>x. x \<noteq> 0) (map gearID (equippedGears (player_data s ! ci)))) \<longrightarrow>
           (let c' = player_data (snd (handle_rune_packet K entity_id gear_id gear_tier rune_id rune_slot s)) ! ci
            in gear_synced (equippedGears c') (inventoryGears c')))"
proof (intro conjI impI)
  let ?c = "player_data s ! ci"
  let ?h = "handle_gear_packet K entity_id prefix slot1 gear_id s"
  assume f: "fst ?h = Completed"
  have ci: "ci < length (player_data s)" using ch by (rule find_char_bound)
  let ?eq = "pad_to 6 (equippedGears ?c)"
  let ?gd = "(case find (\<lambda>item. gearID item = gear_id) (inventoryGears ?c) of
               Some item \<Rightarrow> item
             | None \<Rightarrow> \<lparr>gearID = gear_id, tier = 0, runes = [0, 0, 0], colors = [0, 0]\<rparr>)"
  let ?inv' = "(if \<not> (\<exists>g \<in> set (inventoryGears ?c). gearID g = gear_id)
               then inventoryGears ?c @ [?gd] else inventoryGears ?c)"
  from f ch obtain k where k: "py_index (slot1 - 1) (length ?eq) = Some k"
    by (auto simp: handle_gear_packet_def Let_def split: option.splits)
  have kl: "k < length ?eq" using k by (rule py_index_Some)
  have c': "player_data (snd ?h) ! ci = ?c\<lparr>equippedGears := ?eq[k := ?gd], inventoryGears := ?inv'\<rparr>"
    using ch k ci by (simp add: handle_gear_packet_def Let_def persist_def sendall_def)
  have gid: "gearID ?gd = gear_id"
    by (auto split: option.splits dest: find_Some_iff[THEN iffD1])
  have gin: "?gd \<in> set ?inv'"
  proof (cases "find (\<lambda>item. gearID item = gear_id) (inventoryGears ?c)")
    case None
    then show ?thesis by (simp add: find_None_all)
  next
    case (Some item)
    then have "item \<in> set (inventoryGears ?c)" "gearID item = gear_id"
      by (auto simp: find_Some_iff)
    with Some show ?thesis by auto
  qed
  have local: "\<exists>j. py_index (slot1 - 1) (length (?eq[k := ?gd])) = Some j \<and>
                   gearID (?eq[k := ?gd] ! j) = gear_id \<and> ?eq[k := ?gd] ! j \<in> set ?inv'"
    using k kl gid gin by (intro exI[of _ k]) simp
  have keep: "gear_synced (?eq[k := ?gd]) ?inv'"
    if pre: "gear_synced (equippedGears ?c) (inventoryGears ?c)"
    unfolding gear_synced_def
  proof (intro ballI impI)
    fix e assume e: "e \<in> set (?eq[k := ?gd])" and nz: "gearID e \<noteq> 0"
    from e set_update_subset_insert[of ?eq k ?gd] set_pad_to[of 6 "equippedGears ?c"]
    have "e = ?gd \<or> e = default_gear \<or> e \<in> set (equippedGears ?c)" by auto
    then show "has_copy ?inv' e"
    proof (elim disjE)
      assume "e = ?gd"
      with gin show ?thesis by (simp add: has_copy_self)
    next
      assume "e = default_gear"
      with nz show ?thesis by (simp add: default_gear_def)
    next
      assume "e \<in> set (equippedGears ?c)"
      with pre nz have "has_copy (inventoryGears ?c) e" by (auto simp: gear_synced_def)
      then show ?thesis by (rule has_copy_mono) auto
    qed
  qed
  show "let c = player_data s ! ci; c' = player_data (snd ?h) ! ci
        in (\<exists>k. py_index (slot1 - 1) (length (equippedGears c')) = Some k \<and>
                 gearID (equippedGears c' ! k) = gear_id \<and>
                 equippedGears c' ! k \<in> set (inventoryGears c')) \<and>
           (gear_synced (equippedGears c) (inventoryGears c) \<longrightarrow>
            gear_synced (equippedGears c') (inventoryGears c'))"
  proof -
    have e': "equippedGears (player_data (snd ?h) ! ci) = ?eq[k := ?gd]"
     and i': "inventoryGears (player_data (snd ?h) ! ci) = ?inv'"
      using c' by simp_all
    show ?thesis
      unfolding Let_def e' i'
      apply (rule conjI)
       apply (rule local)
      apply (rule impI)
      apply (erule keep)
      done
  qed
next
  let ?c = "player_data s ! ci"
  let ?h = "handle_rune_packet K entity_id gear_id gear_tier rune_id rune_slot s"
  assume a: "fst ?h = Completed \<and>
          gear_synced (equippedGears ?c) (inventoryGears ?c) \<and>
          distinct (map gearID (inventoryGears ?c)) \<and>
          distinct (filter (\<lambda>x. x \<noteq> 0) (map gearID (equippedGears ?c)))"
  have ci: "ci < length (player_data s)" using ch by (rule find_char_bound)
  let ?eq = "fit_slots (equippedGears ?c)"
  let ?idx = "nat (rune_slot - 1)"
  let ?v = "if rune_id = 96 then 0 else rune_id"
  from rune_completedD[OF ch] a obtain slot inv' where
        sl: "find_index (\<lambda>g. gearID g = gear_id \<and> tier g = gear_tier) ?eq = Some slot"
    and rs: "1 \<le> rune_slot" "rune_slot \<le> 3"
    and ln: "?idx < length (runes (?eq ! slot))"
    and sy: "sync_inventory gear_id gear_tier ?idx
               ((?eq ! slot)\<lparr>runes := (runes (?eq ! slot))[?idx := ?v]\<rparr>) (inventoryGears ?c) = Some inv'"
    by blast
  have c': "player_data (snd ?h) ! ci =
      ?c\<lparr>equippedGears := ?eq[slot := (?eq ! slot)\<lparr>runes := (runes (?eq ! slot))[?idx := ?v]\<rparr>],
         charms := socket_charms rune_id (runes (?eq ! slot) ! ?idx) (charms ?c),
         inventoryGears := inv'\<rparr>"
    using rune_step[OF ch sl rs ln sy, of K entity_id] ci by (simp add: Let_def)
  have "gear_synced (?eq[slot := (?eq ! slot)\<lparr>runes := (runes (?eq ! slot))[?idx := ?v]\<rparr>]) inv'"
    using a by (intro sync_core[OF sl gear_synced_fit _ distinct_fit ln sy]) auto
  then show "let c' = player_data (snd ?h) ! ci in gear_synced (equippedGears c') (inventoryGears c')"
    unfolding Let_def c' by simp
qed

theorem equip_and_rune_keep_sync_witness:
  "gear_synced (equippedGears rune_ready) (inventoryGears rune_ready) \<and>
   fst (handle_gear_packet K_demo 7 0 2 42 (solo rune_ready)) = Completed \<and>
   gear_synced
     (equippedGears (player_data (snd (handle_gear_packet K_demo 7 0 2 42 (solo rune_ready))) ! 0))
     (inventoryGears (player_data (snd (handle_gear_packet K_demo 7 0 2 42 (solo rune_ready))) ! 0)) \<and>
   equippedGears (player_data (snd (handle_gear_packet K_demo 7 0 2 42 (solo rune_ready))) ! 0) ! 1 =
     gear_of 42 2 [3, 0, 0] \<and>
   fst (handle_rune_packet K_demo 7 5 1 20 1 (solo rune_ready)) = Completed \<and>
   gear_synced
     (equippedGears (player_data (snd (handle_rune_packet K_demo 7 5 1 20 1 (solo rune_ready))) ! 0))
     (inventoryGears (player_data (snd (handle_rune_packet K_demo 7 5 1 20 1 (solo rune_ready))) ! 0)) \<and>
   inventoryGears (player_data (snd (handle_rune_packet K_demo 7 5 1 20 1 (solo rune_ready))) ! 0) =
     [gear_of 5 1 [20, 0, 0], gear_of 42 2 [3, 0, 0]]"
proof -
  let ?s = "solo rune_ready"
  have c0: "player_data ?s ! 0 = rune_ready" by (simp add: solo_def)
  have ch: "find_char (current_character ?s) (player_data ?s) = Some 0"
    by (simp add: solo_def rune_ready_def hero_def find_char_def)
  have pre: "gear_synced (equippedGears rune_ready) (inventoryGears rune_ready)"
    by (simp add: gear_synced_def has_copy_def rune_ready_def hero_def gear_of_def)
  have dI: "distinct (map gearID (inventoryGears rune_ready))"
    by (simp add: rune_ready_def hero_def gear_of_def)
  have dE: "distinct (filter (\<lambda>x. x \<noteq> 0) (map gearID (equippedGears rune_ready)))"
    by (simp add: rune_ready_def hero_def gear_of_def)
  have f1: "fst (handle_gear_packet K_demo 7 0 2 42 ?s) = Completed"
    by (simp add: handle_gear_packet_def rune_ready_def demo_defs numeral_eq_Suc)
  have e1: "equippedGears (player_data (snd (handle_gear_packet K_demo 7 0 2 42 ?s)) ! 0) ! 1 =
     gear_of 42 2 [3, 0, 0]"
    by (simp add: handle_gear_packet_def rune_ready_def demo_defs numeral_eq_Suc)
  have f2: "fst (handle_rune_packet K_demo 7 5 1 20 1 ?s) = Completed"
    by (simp add: handle_rune_packet_def rune_ready_def demo_defs numeral_eq_Suc)
  have e2: "inventoryGears (player_data (snd (handle_rune_packet K_demo 7 5 1 20 1 ?s)) ! 0) =
     [gear_of 5 1 [20, 0, 0], gear_of 42 2 [3, 0, 0]]"
    by (simp add: handle_rune_packet_def rune_ready_def demo_defs numeral_eq_Suc)
  from equip_and_rune_keep_sync[OF ch, of K_demo 7 0 2 42]
  have g1: "gear_synced
     (equippedGears (player_data (snd (handle_gear_packet K_demo 7 0 2 42 ?s)) ! 0))
     (inventoryGears (player_data (snd (handle_gear_packet K_demo 7 0 2 42 ?s)) ! 0))"
    using f1 pre unfolding c0 by (simp add: Let_def)
  from equip_and_rune_keep_sync[OF ch, of K_demo 7 _ _ 5 1 20 1]
  have g2: "gear_synced
     (equippedGears (player_data (snd (handle_rune_packet K_demo 7 5 1 20 1 ?s)) ! 0))
     (inventoryGears (player_data (snd (handle_rune_packet K_demo 7 5 1 20 1 ?s)) ! 0))"
    using f2 pre dI dE unfolding c0 by (simp add: Let_def)
  from pre f1 g1 e1 f2 g2 e2 show ?thesis by simp
qed

text \<open>
  C1 as stated fails in four ways, each on a save as it is loaded from its file.
  (1) Equipping gear 42 on a character with no gear pads the equipped list with default
  items of gear id 0, which have no inventory entry. (2) An equipped item that had no
  inventory entry before an equip of another slot has none afterwards. (3) With the same
  gear equipped in two slots and in sync with the inventory, socketing a rune changes the
  first slot and the inventory entry and leaves the second slot with the old runes.
  (4) With two inventory entries of one gear id (tiers 1 and 2), the equipped tier-1 item
  in sync through the tier-2 entry, socketing a rune writes one rune index of the tier-1
  entry, whose other runes differ.
\<close>

theorem sync_claim_counterexample:
  "fst (handle_gear_packet K_demo 7 0 1 42 (solo hero)) = Completed \<and>
   \<not> gear_synced_all
       (equippedGears (player_data (snd (handle_gear_packet K_demo 7 0 1 42 (solo hero))) ! 0))
       (inventoryGears (player_data (snd (handle_gear_packet K_demo 7 0 1 42 (solo hero))) ! 0)) \<and>
   fst (handle_gear_packet K_demo 7 0 2 42 (solo stale_slot)) = Completed \<and>
   \<not> gear_synced
       (equippedGears (player_data (snd (handle_gear_packet K_demo 7 0 2 42 (solo stale_slot))) ! 0))
       (inventoryGears (player_data (snd (handle_gear_packet K_demo 7 0 2 42 (solo stale_slot))) ! 0)) \<and>
   gear_synced (equippedGears same_gear_twice) (inventoryGears same_gear_twice) \<and>
   fst (handle_rune_packet K_demo 7 5 1 20 1 (solo same_gear_twice)) = Completed \<and>
   \<not> gear_synced
       (equippedGears (player_data (snd (handle_rune_packet K_demo 7 5 1 20 1 (solo same_gear_twice))) ! 0))
       (inventoryGears (player_data (snd (handle_rune_packet K_demo 7 5 1 20 1 (solo same_gear_twice))) ! 0)) \<and>
   gear_synced (equippedGears two_tiers_owned) (inventoryGears two_tiers_owned) \<and>
   fst (handle_rune_packet K_demo 7 5 1 20 1 (solo two_tiers_owned)) = Completed \<and>
   \<not> gear_synced
       (equippedGears (player_data (snd (handle_rune_packet K_demo 7 5 1 20 1 (solo two_tiers_owned))) ! 0))
       (inventoryGears (player_data (snd (handle_rune_packet K_demo 7 5 1 20 1 (solo two_tiers_owned))) ! 0))"
proof -
  have a: "handle_gear_packet K_demo 7 0 1 42 (solo hero) =
     (Completed,
      \<lparr>player_data = [hero\<lparr>
          equippedGears := [gear_of 42 0 [0, 0, 0], default_gear, default_gear, default_gear,
                            default_gear, default_gear],
          inventoryGears := [gear_of 42 0 [0, 0, 0]]\<rparr>],
       current_character = ''hero'',
       saved = [[hero\<lparr>
          equippedGears := [gear_of 42 0 [0, 0, 0], default_gear, default_gear, default_gear,
                            default_gear, default_gear],
          inventoryGears := [gear_of 42 0 [0, 0, 0]]\<rparr>]],
       sent = [Packet 0x31 [Method4 7, Bits 0 3, Bits 1 2, Method6 42 11]]\<rparr>)"
    by (simp add: handle_gear_packet_def demo_defs numeral_eq_Suc)
  have b: "handle_gear_packet K_demo 7 0 2 42 (solo stale_slot) =
     (Completed,
      \<lparr>player_data = [hero\<lparr>
          equippedGears := [gear_of 7 0 [1, 0, 0], gear_of 42 0 [0, 0, 0], default_gear,
                            default_gear, default_gear, default_gear],
          inventoryGears := [gear_of 42 0 [0, 0, 0]]\<rparr>],
       current_character = ''hero'',
       saved = [[hero\<lparr>
          equippedGears := [gear_of 7 0 [1, 0, 0], gear_of 42 0 [0, 0, 0], default_gear,
                            default_gear, default_gear, default_gear],
          inventoryGears := [gear_of 42 0 [0, 0, 0]]\<rparr>]],
       sent = [Packet 0x31 [Method4 7, Bits 0 3, Bits 2 2, Method6 42 11]]\<rparr>)"
    by (simp add: handle_gear_packet_def stale_slot_def demo_defs numeral_eq_Suc)
  have c: "handle_rune_packet K_demo 7 5 1 20 1 (solo same_gear_twice) =
     (Completed,
      \<lparr>player_data = [hero\<lparr>
          equippedGears := [gear_of 5 1 [20, 0, 0], gear_of 5 1 [0, 0, 0], default_gear,
                            default_gear, default_gear, default_gear],
          inventoryGears := [gear_of 5 1 [20, 0, 0]], charms := []\<rparr>],
       current_character = ''hero'',
       saved = [[hero\<lparr>
          equippedGears := [gear_of 5 1 [20, 0, 0], gear_of 5 1 [0, 0, 0], default_gear,
                            default_gear, default_gear, default_gear],
          inventoryGears := [gear_of 5 1 [20, 0, 0]], charms := []\<rparr>]],
       sent = [Packet 0xB0 [Method4 7, Method6 5 11, Method6 1 2, Method6 20 7, Method6 1 2]]\<rparr>)"
    by (simp add: handle_rune_packet_def same_gear_twice_def demo_defs numeral_eq_Suc)
  have d: "handle_rune_packet K_demo 7 5 1 20 1 (solo two_tiers_owned) =
     (Completed,
      \<lparr>player_data = [hero\<lparr>
          equippedGears := [gear_of 5 1 [20, 0, 0], default_gear, default_gear, default_gear,
                            default_gear, default_gear],
          inventoryGears := [gear_of 5 1 [20, 9, 9], gear_of 5 2 [0, 0, 0]], charms := []\<rparr>],
       current_character = ''hero'',
       saved = [[hero\<lparr>
          equippedGears := [gear_of 5 1 [20, 0, 0], default_gear, default_gear, default_gear,
                            default_gear, default_gear],
          inventoryGears := [gear_of 5 1 [20, 9, 9], gear_of 5 2 [0, 0, 0]], charms := []\<rparr>]],
       sent = [Packet 0xB0 [Method4 7, Method6 5 11, Method6 1 2, Method6 20 7, Method6 1 2]]\<rparr>)"
    by (simp add: handle_rune_packet_def two_tiers_owned_def demo_defs numeral_eq_Suc)
  show ?thesis
    unfolding a b c d
    by (simp add: gear_synced_def gear_synced_all_def has_copy_def same_gear_twice_def
        two_tiers_owned_def hero_def gear_of_def default_gear_def)
qed

section \<open>Mastery tree\<close>

lemma find_append_case:
  "find P (xs @ ys) = (case find P xs of None \<Rightarrow> find P ys | Some x \<Rightarrow> Some x)"
  by (induction xs) auto

lemma map_of_fold_dict_set:
  "map_of (fold (\<lambda>sl. dict_set (key sl) sl) xs acc) k =
     (case find (\<lambda>sl. key sl = k) (rev xs) of Some sl \<Rightarrow> Some sl | None \<Rightarrow> map_of acc k)"
proof (induction xs arbitrary: acc)
  case Nil
  show ?case by simp
next
  case (Cons x xs)
  show ?case
    by (simp add: Cons.IH find_append_case map_of_dict_set split: option.splits)
qed

lemma fold_append_concat:
  "fold (\<lambda>i bb. bb @ f i) xs acc = acc @ concat (map f xs)"
  by (induction xs arbitrary: acc) simp_all

lemma tree_node_index: "tree_node tree i = Some slot \<Longrightarrow> nodeIdx slot = int i + 1"
  by (auto simp: tree_node_def find_Some_iff)

lemma send_mastery_packet_fields:
  assumes ch: "find_char (current_character s) (player_data s) = Some ci"
  shows "send_mastery_packet K entity_id s =
     s\<lparr>sent := sent s @ [Packet 0xC1 (mastery_tree_fields K entity_id
          (case map_of (Mastery (player_data s ! ci)) (MasterClass (player_data s ! ci)) of
             None \<Rightarrow> [] | Some tree \<Rightarrow> tree))]\<rparr>"
proof -
  let ?c = "player_data s ! ci"
  let ?ms = "class_slots ?c (MasterClass ?c)"
  let ?sm = "fold (\<lambda>sl. dict_set (nodeIdx sl - 1) sl) ?ms []"
  have look: "map_of ?sm (int i) = tree_node ?ms i" for i
    by (simp add: map_of_fold_dict_set tree_node_def split: option.splits)
  have step: "(\<lambda>i bb.
        (case map_of ?sm (int i) of
           None \<Rightarrow> bb @ [Bits 0 1]
         | Some slot \<Rightarrow>
             (if filled slot then
                bb @ [Bits 1 1, Method6 (nodeIdx slot) (CLASS_118_CONST_127 K),
                      Bits (points slot - 1) (method_277 K i)]
              else bb @ [Bits 0 1]))) =
      (\<lambda>i bb. bb @ mastery_node_fields K ?ms i)"
    unfolding look
    by (intro ext) (auto simp: mastery_node_fields_def dest: tree_node_index split: option.splits)
  have "send_mastery_packet K entity_id s =
     s\<lparr>sent := sent s @ [Packet 0xC1 (mastery_tree_fields K entity_id ?ms)]\<rparr>"
    using ch
    by (simp add: send_mastery_packet_def Let_def step fold_append_concat sendall_def
        mastery_tree_fields_def class_118_const_43_def)
  then show ?thesis by (simp add: class_slots_def)
qed

text \<open>
  C7 (amended). For a character of the save, the mastery packet 0xC1 consists of the entity
  id and then, for each node index \<open>i\<close> from 0 to 26 in order, a 1-bit presence flag which,
  when the tree of the selected class has a filled node at \<open>i\<close>, is followed by the 1-based
  index \<open>i + 1\<close> (the node's stored \<open>nodeIdx\<close>) in the fixed width \<open>CLASS_118_CONST_127\<close> and
  by \<open>points - 1\<close> in exactly \<open>method_277 i\<close> bits. The tree is the entry of the character's
  \<open>Mastery\<close> dict for the selected class, the empty tree when there is none. A
  select-mastery-class request stores the class, writes the save, replies 0xC3 and then
  sends this packet for the tree of the newly selected class.
\<close>

theorem mastery_encoding:
  assumes ch: "find_char (current_character s) (player_data s) = Some ci"
  shows "send_mastery_packet K entity_id s =
           s\<lparr>sent := sent s @ [Packet 0xC1 (mastery_tree_fields K entity_id
               (case map_of (Mastery (player_data s ! ci)) (MasterClass (player_data s ! ci)) of
                  None \<Rightarrow> [] | Some tree \<Rightarrow> tree))]\<rparr> \<and>
         handle_masterclass_packet K entity_id master_class_id s =
           (let c = player_data s ! ci;
                chars' = (player_data s)[ci := c\<lparr>MasterClass := master_class_id\<rparr>]
            in (Completed,
                s\<lparr>player_data := chars', saved := saved s @ [chars'],
                  sent := sent s @
                    [Packet 0xC3 [Method4 entity_id, Method6 master_class_id (GAME_CONST_209 K)],
                     Packet 0xC1 (mastery_tree_fields K entity_id
                       (case map_of (Mastery c) master_class_id of
                          None \<Rightarrow> [] | Some tree \<Rightarrow> tree))]\<rparr>))"
proof (intro conjI)
  show "send_mastery_packet K entity_id s =
           s\<lparr>sent := sent s @ [Packet 0xC1 (mastery_tree_fields K entity_id
               (case map_of (Mastery (player_data s ! ci)) (MasterClass (player_data s ! ci)) of
                  None \<Rightarrow> [] | Some tree \<Rightarrow> tree))]\<rparr>"
    using ch by (rule send_mastery_packet_fields)
next
  let ?c = "player_data s ! ci"
  let ?c' = "?c\<lparr>MasterClass := master_class_id\<rparr>"
  let ?s2 = "sendall (Packet 0xC3 [Method4 entity_id, Method6 master_class_id (GAME_CONST_209 K)])
               (persist (with_char ci ?c' s))"
  have ci: "ci < length (player_data s)" using ch by (rule find_char_bound)
  from find_index_Some[OF ch[unfolded find_char_def]] have nm: "name ?c' = current_character s" by simp
  have pd2: "player_data ?s2 = (player_data s)[ci := ?c']" "current_character ?s2 = current_character s"
    by (simp_all add: sendall_def persist_def with_char_def)
  have ch2: "find_char (current_character ?s2) (player_data ?s2) = Some ci"
    unfolding pd2 using ch nm by (rule find_char_update)
  have c2: "player_data ?s2 ! ci = ?c'" unfolding pd2 using ci by simp
  show "handle_masterclass_packet K entity_id master_class_id s =
           (let c = player_data s ! ci;
                chars' = (player_data s)[ci := c\<lparr>MasterClass := master_class_id\<rparr>]
            in (Completed,
                s\<lparr>player_data := chars', saved := saved s @ [chars'],
                  sent := sent s @
                    [Packet 0xC3 [Method4 entity_id, Method6 master_class_id (GAME_CONST_209 K)],
                     Packet 0xC1 (mastery_tree_fields K entity_id
                       (case map_of (Mastery c) master_class_id of
                          None \<Rightarrow> [] | Some tree \<Rightarrow> tree))]\<rparr>))"
    using ch send_mastery_packet_fields[OF ch2, of K entity_id]
    unfolding c2
    by (simp add: handle_masterclass_packet_def Let_def sendall_def persist_def with_char_def)
qed

text \<open>
  A character with class 1 selected and a tree for each of the classes 1 and 2 selects
  class 2: the packet 0xC1 carries the tree of class 2, with the filled nodes at the
  indices 0 and 9 written as 1 and 10, and not the tree of class 1.
\<close>

theorem mastery_encoding_witness:
  "handle_masterclass_packet K_demo 7 2 (solo two_trees) =
     (Completed,
      \<lparr>player_data = [two_trees\<lparr>MasterClass := 2\<rparr>],
       current_character = ''hero'',
       saved = [[two_trees\<lparr>MasterClass := 2\<rparr>]],
       sent = [Packet 0xC3 [Method4 7, Method6 2 4],
               Packet 0xC1
     [Method4 7,
      Bits 1 1, Method6 1 5, Bits 2 1,
      Bits 0 1, Bits 0 1, Bits 0 1, Bits 0 1, Bits 0 1, Bits 0 1, Bits 0 1, Bits 0 1,
      Bits 1 1, Method6 10 5, Bits 0 2,
      Bits 0 1, Bits 0 1, Bits 0 1, Bits 0 1, Bits 0 1, Bits 0 1, Bits 0 1, Bits 0 1,
      Bits 0 1, Bits 0 1, Bits 0 1, Bits 0 1, Bits 0 1, Bits 0 1, Bits 0 1, Bits 0 1, Bits 0 1]]\<rparr>) \<and>
   send_mastery_packet K_demo 7 (solo two_trees) =
     (solo two_trees)\<lparr>sent := [Packet 0xC1
     [Method4 7,
      Bits 0 1, Bits 0 1, Bits 0 1, Bits 0 1, Bits 0 1, Bits 0 1, Bits 0 1, Bits 0 1, Bits 0 1,
      Bits 0 1, Bits 0 1, Bits 0 1, Bits 0 1, Bits 0 1, Bits 0 1, Bits 0 1, Bits 0 1, Bits 0 1,
      Bits 0 1, Bits 0 1, Bits 0 1, Bits 0 1, Bits 0 1, Bits 0 1, Bits 0 1, Bits 0 1,
      Bits 1 1, Method6 27 5, Bits 1 2]]\<rparr>"
proof -
  let ?s = "solo two_trees"
  have ch: "find_char (current_character ?s) (player_data ?s) = Some 0"
    by (simp add: solo_def two_trees_def hero_def find_char_def)
  have ev: "mastery_tree_fields K_demo 7 demo_tree =
     [Method4 7,
      Bits 1 1, Method6 1 5, Bits 2 1,
      Bits 0 1, Bits 0 1, Bits 0 1, Bits 0 1, Bits 0 1, Bits 0 1, Bits 0 1, Bits 0 1,
      Bits 1 1, Method6 10 5, Bits 0 2,
      Bits 0 1, Bits 0 1, Bits 0 1, Bits 0 1, Bits 0 1, Bits 0 1, Bits 0 1, Bits 0 1,
      Bits 0 1, Bits 0 1, Bits 0 1, Bits 0 1, Bits 0 1, Bits 0 1, Bits 0 1, Bits 0 1, Bits 0 1]"
    by (simp add: mastery_tree_fields_def mastery_node_fields_def tree_node_def demo_tree_def
        K_demo_def upt_rec[of _ "numeral _"])
  have ev1: "mastery_tree_fields K_demo 7 [\<lparr>nodeIdx = 27, filled = True, points = 2\<rparr>] =
     [Method4 7,
      Bits 0 1, Bits 0 1, Bits 0 1, Bits 0 1, Bits 0 1, Bits 0 1, Bits 0 1, Bits 0 1, Bits 0 1,
      Bits 0 1, Bits 0 1, Bits 0 1, Bits 0 1, Bits 0 1, Bits 0 1, Bits 0 1, Bits 0 1, Bits 0 1,
      Bits 0 1, Bits 0 1, Bits 0 1, Bits 0 1, Bits 0 1, Bits 0 1, Bits 0 1, Bits 0 1,
      Bits 1 1, Method6 27 5, Bits 1 2]"
    by (simp add: mastery_tree_fields_def mastery_node_fields_def tree_node_def
        K_demo_def upt_rec[of _ "numeral _"])
  have t2: "(case map_of (Mastery (player_data ?s ! 0)) 2 of None \<Rightarrow> [] | Some tree \<Rightarrow> tree) =
            demo_tree"
    by (simp add: solo_def two_trees_def hero_def)
  have t1: "(case map_of (Mastery (player_data ?s ! 0)) (MasterClass (player_data ?s ! 0)) of
               None \<Rightarrow> [] | Some tree \<Rightarrow> tree) = [\<lparr>nodeIdx = 27, filled = True, points = 2\<rparr>]"
    by (simp add: solo_def two_trees_def hero_def)
  from mastery_encoding[OF ch, of K_demo 7 2, THEN conjunct2, unfolded Let_def t2 ev]
  have a: "handle_masterclass_packet K_demo 7 2 (solo two_trees) =
     (Completed,
      \<lparr>player_data = [two_trees\<lparr>MasterClass := 2\<rparr>],
       current_character = ''hero'',
       saved = [[two_trees\<lparr>MasterClass := 2\<rparr>]],
       sent = [Packet 0xC3 [Method4 7, Method6 2 4],
               Packet 0xC1
     [Method4 7,
      Bits 1 1, Method6 1 5, Bits 2 1,
      Bits 0 1, Bits 0 1, Bits 0 1, Bits 0 1, Bits 0 1, Bits 0 1, Bits 0 1, Bits 0 1,
      Bits 1 1, Method6 10 5, Bits 0 2,
      Bits 0 1, Bits 0 1, Bits 0 1, Bits 0 1, Bits 0 1, Bits 0 1, Bits 0 1, Bits 0 1,
      Bits 0 1, Bits 0 1, Bits 0 1, Bits 0 1, Bits 0 1, Bits 0 1, Bits 0 1, Bits 0 1, Bits 0 1]]\<rparr>)"
    by (simp add: Let_def solo_def two_trees_def hero_def K_demo_def)
  from mastery_encoding[OF ch, of K_demo 7 2, THEN conjunct1, unfolded t1 ev1]
  have b: "send_mastery_packet K_demo 7 (solo two_trees) =
     (solo two_trees)\<lparr>sent := [Packet 0xC1
     [Method4 7,
      Bits 0 1, Bits 0 1, Bits 0 1, Bits 0 1, Bits 0 1, Bits 0 1, Bits 0 1, Bits 0 1, Bits 0 1,
      Bits 0 1, Bits 0 1, Bits 0 1, Bits 0 1, Bits 0 1, Bits 0 1, Bits 0 1, Bits 0 1, Bits 0 1,
      Bits 0 1, Bits 0 1, Bits 0 1, Bits 0 1, Bits 0 1, Bits 0 1, Bits 0 1, Bits 0 1,
      Bits 1 1, Method6 27 5, Bits 1 2]]\<rparr>"
    by (simp add: solo_def)
  from a b show ?thesis by (rule conjI)
qed

text \<open>
  C7 as stated has the node index \<open>i\<close> of the enumeration from 0 to 26 written after the
  presence flag. For a tree with filled nodes at the indices 0 and 9 the handler writes 1
  and 10, the claimed encoding has 0 and 9: the packet sent is not the claimed one.
\<close>

theorem mastery_index_counterexample:
  "send_mastery_packet K_demo 7 (solo (hero\<lparr>Mastery := [(1, demo_tree)]\<rparr>)) =
     (solo (hero\<lparr>Mastery := [(1, demo_tree)]\<rparr>))\<lparr>sent := [Packet 0xC1
     [Method4 7,
      Bits 1 1, Method6 1 5, Bits 2 1,
      Bits 0 1, Bits 0 1, Bits 0 1, Bits 0 1, Bits 0 1, Bits 0 1, Bits 0 1, Bits 0 1,
      Bits 1 1, Method6 10 5, Bits 0 2,
      Bits 0 1, Bits 0 1, Bits 0 1, Bits 0 1, Bits 0 1, Bits 0 1, Bits 0 1, Bits 0 1,
      Bits 0 1, Bits 0 1, Bits 0 1, Bits 0 1, Bits 0 1, Bits 0 1, Bits 0 1, Bits 0 1, Bits 0 1]]\<rparr> \<and>
   claimed_tree_fields K_demo 7 demo_tree =
     [Method4 7,
      Bits 1 1, Method6 0 5, Bits 2 1,
      Bits 0 1, Bits 0 1, Bits 0 1, Bits 0 1, Bits 0 1, Bits 0 1, Bits 0 1, Bits 0 1,
      Bits 1 1, Method6 9 5, Bits 0 2,
      Bits 0 1, Bits 0 1, Bits 0 1, Bits 0 1, Bits 0 1, Bits 0 1, Bits 0 1, Bits 0 1,
      Bits 0 1, Bits 0 1, Bits 0 1, Bits 0 1, Bits 0 1, Bits 0 1, Bits 0 1, Bits 0 1, Bits 0 1] \<and>
   send_mastery_packet K_demo 7 (solo (hero\<lparr>Mastery := [(1, demo_tree)]\<rparr>)) \<noteq>
     (solo (hero\<lparr>Mastery := [(1, demo_tree)]\<rparr>))\<lparr>sent :=
        [Packet 0xC1 (claimed_tree_fields K_demo 7 demo_tree)]\<rparr>"
proof -
  let ?s = "solo (hero\<lparr>Mastery := [(1, demo_tree)]\<rparr>)"
  have ch: "find_char (current_character ?s) (player_data ?s) = Some 0"
    by (simp add: solo_def hero_def find_char_def)
  have ev: "mastery_tree_fields K_demo 7 demo_tree =
     [Method4 7,
      Bits 1 1, Method6 1 5, Bits 2 1,
      Bits 0 1, Bits 0 1, Bits 0 1, Bits 0 1, Bits 0 1, Bits 0 1, Bits 0 1, Bits 0 1,
      Bits 1 1, Method6 10 5, Bits 0 2,
      Bits 0 1, Bits 0 1, Bits 0 1, Bits 0 1, Bits 0 1, Bits 0 1, Bits 0 1, Bits 0 1,
      Bits 0 1, Bits 0 1, Bits 0 1, Bits 0 1, Bits 0 1, Bits 0 1, Bits 0 1, Bits 0 1, Bits 0 1]"
    by (simp add: mastery_tree_fields_def mastery_node_fields_def tree_node_def demo_tree_def
        K_demo_def upt_rec[of _ "numeral _"])
  have cl: "claimed_tree_fields K_demo 7 demo_tree =
     [Method4 7,
      Bits 1 1, Method6 0 5, Bits 2 1,
      Bits 0 1, Bits 0 1, Bits 0 1, Bits 0 1, Bits 0 1, Bits 0 1, Bits 0 1, Bits 0 1,
      Bits 1 1, Method6 9 5, Bits 0 2,
      Bits 0 1, Bits 0 1, Bits 0 1, Bits 0 1, Bits 0 1, Bits 0 1, Bits 0 1, Bits 0 1,
      Bits 0 1, Bits 0 1, Bits 0 1, Bits 0 1, Bits 0 1, Bits 0 1, Bits 0 1, Bits 0 1, Bits 0 1]"
    by (simp add: claimed_tree_fields_def claimed_node_fields_def tree_node_def demo_tree_def
        K_demo_def upt_rec[of _ "numeral _"])
  have t1: "(case map_of (Mastery (player_data ?s ! 0)) (MasterClass (player_data ?s ! 0)) of
               None \<Rightarrow> [] | Some tree \<Rightarrow> tree) = demo_tree"
    by (simp add: solo_def hero_def)
  from send_mastery_packet_fields[OF ch, of K_demo 7, unfolded t1 ev]
  have a: "send_mastery_packet K_demo 7 ?s = ?s\<lparr>sent := [Packet 0xC1
     [Method4 7,
      Bits 1 1, Method6 1 5, Bits 2 1,
      Bits 0 1, Bits 0 1, Bits 0 1, Bits 0 1, Bits 0 1, Bits 0 1, Bits 0 1, Bits 0 1,
      Bits 1 1, Method6 10 5, Bits 0 2,
      Bits 0 1, Bits 0 1, Bits 0 1, Bits 0 1, Bits 0 1, Bits 0 1, Bits 0 1, Bits 0 1,
      Bits 0 1, Bits 0 1, Bits 0 1, Bits 0 1, Bits 0 1, Bits 0 1, Bits 0 1, Bits 0 1, Bits 0 1]]\<rparr>"
    by (simp add: solo_def)
  have c: "send_mastery_packet K_demo 7 ?s \<noteq>
     ?s\<lparr>sent := [Packet 0xC1 (claimed_tree_fields K_demo 7 demo_tree)]\<rparr>"
    unfolding a cl by (simp add: solo_def)
  from a cl c show ?thesis by simp
qed

section \<open>Hotbar update\<close>

text \<open>The loop equation is used through the three lemmas below, one per form of the input.\<close>

declare hotbar_loop.simps [simp del]

lemma read_bits_1: "read_bits (Suc 0) (b # bs) = Inr (if b then 1 else 0, bs)"
  by (simp add: read_bits_def bits_value_def)

lemma read_bits_7: "7 \<le> length bs \<Longrightarrow> read_bits 7 bs = Inr (bits_value (take 7 bs), drop 7 bs)"
  by (simp add: read_bits_def)

lemma read_bits_7_short: "length bs < 7 \<Longrightarrow> read_bits 7 bs = Inl TruncatedPacket"
  by (simp add: read_bits_def)

lemma hotbar_loop_Nil: "hotbar_loop [] slot upd = Inr upd"
  by (simp add: hotbar_loop.simps[of "[]"] remaining_bits_def)

lemma hotbar_loop_False: "hotbar_loop (False # bs) slot upd = hotbar_loop bs (slot + 1) upd"
  by (simp add: hotbar_loop.simps[of "False # bs"] remaining_bits_def read_bits_1)

lemma hotbar_loop_True:
  "hotbar_loop (True # bs) slot upd =
     (if length bs < 7 then Inl TruncatedPacket
      else hotbar_loop (drop 7 bs) (slot + 1) (dict_set (slot - 1) (bits_value (take 7 bs)) upd))"
  by (simp add: hotbar_loop.simps[of "True # bs"] remaining_bits_def read_bits_1 read_bits_7
      read_bits_7_short)

lemma hotbar_loop_truncated:
  "hotbar_slots bits = None \<Longrightarrow> hotbar_loop bits slot upd = Inl TruncatedPacket"
proof (induction bits arbitrary: slot upd rule: hotbar_slots.induct)
  case 1
  then show ?case by simp
next
  case (2 bs)
  then show ?case by (simp add: hotbar_loop_False)
next
  case (3 bs)
  then show ?case by (auto simp: hotbar_loop_True split: if_splits)
qed

lemma hotbar_loop_decodes:
  "hotbar_slots bits = Some fl \<Longrightarrow>
   \<exists>updates. hotbar_loop bits (Suc base) upd = Inr updates \<and>
     (distinct (map fst upd) \<longrightarrow> distinct (map fst updates)) \<and>
     (\<forall>i. map_of updates i =
        (if base \<le> i \<and> i - base < length fl \<and> fl ! (i - base) \<noteq> None
         then fl ! (i - base) else map_of upd i))"
proof (induction bits arbitrary: base upd fl rule: hotbar_slots.induct)
  case 1
  then show ?case by (simp add: hotbar_loop_Nil)
next
  case (2 bs)
  from "2.prems" obtain fl' where fl': "hotbar_slots bs = Some fl'" "fl = None # fl'"
    by auto
  from "2.IH"[OF fl'(1), of "Suc base" upd] obtain updates where
    u: "hotbar_loop bs (Suc (Suc base)) upd = Inr updates"
       "distinct (map fst upd) \<longrightarrow> distinct (map fst updates)"
       "\<forall>i. map_of updates i =
          (if Suc base \<le> i \<and> i - Suc base < length fl' \<and> fl' ! (i - Suc base) \<noteq> None
           then fl' ! (i - Suc base) else map_of upd i)"
    by blast
  have "\<forall>i. map_of updates i =
        (if base \<le> i \<and> i - base < length fl \<and> fl ! (i - base) \<noteq> None
         then fl ! (i - base) else map_of upd i)"
  proof
    fix i
    show "map_of updates i =
        (if base \<le> i \<and> i - base < length fl \<and> fl ! (i - base) \<noteq> None
         then fl ! (i - base) else map_of upd i)"
    proof (cases "Suc base \<le> i")
      case True
      then have "i - base = Suc (i - Suc base)" by simp
      with True u(3) fl'(2) show ?thesis by auto
    next
      case False
      then have "i < base \<or> i = base" by auto
      with False u(3) fl'(2) show ?thesis by auto
    qed
  qed
  with u(1,2) show ?case by (simp add: hotbar_loop_False)
next
  case (3 bs)
  from "3.prems" have len: "\<not> length bs < 7" by (auto split: if_splits)
  with "3.prems" obtain fl' where fl': "hotbar_slots (drop 7 bs) = Some fl'"
      "fl = Some (bits_value (take 7 bs)) # fl'"
    by auto
  let ?v = "bits_value (take 7 bs)"
  let ?upd = "dict_set base ?v upd"
  from "3.IH"[OF len fl'(1), of "Suc base" ?upd] obtain updates where
    u: "hotbar_loop (drop 7 bs) (Suc (Suc base)) ?upd = Inr updates"
       "distinct (map fst ?upd) \<longrightarrow> distinct (map fst updates)"
       "\<forall>i. map_of updates i =
          (if Suc base \<le> i \<and> i - Suc base < length fl' \<and> fl' ! (i - Suc base) \<noteq> None
           then fl' ! (i - Suc base) else map_of ?upd i)"
    by blast
  have "\<forall>i. map_of updates i =
        (if base \<le> i \<and> i - base < length fl \<and> fl ! (i - base) \<noteq> None
         then fl ! (i - base) else map_of upd i)"
  proof
    fix i
    show "map_of updates i =
        (if base \<le> i \<and> i - base < length fl \<and> fl ! (i - base) \<noteq> None
         then fl ! (i - base) else map_of upd i)"
    proof (cases "Suc base \<le> i")
      case True
      then have "i - base = Suc (i - Suc base)" "i \<noteq> base" by simp_all
      with True u(3) fl'(2) show ?thesis by (auto simp: map_of_dict_set)
    next
      case False
      then have "i < base \<or> i = base" by auto
      with False u(3) fl'(2) show ?thesis by (auto simp: map_of_dict_set)
    qed
  qed
  moreover have "distinct (map fst upd) \<longrightarrow> distinct (map fst updates)"
    using u(2) by (simp add: distinct_dict_set)
  ultimately show ?case using u(1) len by (simp add: hotbar_loop_True)
qed

lemma fold_update_length:
  "length (fold (\<lambda>(idx, v) a. a[idx := v]) ups a) = length a"
  by (induction ups arbitrary: a) auto

lemma fold_update_nth:
  "distinct (map fst ups) \<Longrightarrow> i < length a \<Longrightarrow>
   fold (\<lambda>(idx, v) a. a[idx := v]) ups a ! i =
     (case map_of ups i of Some v \<Rightarrow> v | None \<Rightarrow> a ! i)"
proof (induction ups arbitrary: a)
  case Nil
  then show ?case by simp
next
  case (Cons p ups)
  obtain k v where p: "p = (k, v)" by (cases p)
  from Cons.prems p have d: "distinct (map fst ups)" and nk: "k \<notin> fst ` set ups" by auto
  from nk have none: "map_of ups k = None" by (simp add: map_of_eq_None_iff)
  from Cons.prems(2) have "i < length (a[k := v])" by simp
  from Cons.IH[OF d this] none Cons.prems(2) show ?case
    by (auto simp: p split: option.splits)
qed

lemma max_key_bounds:
  "m0 \<le> fold (\<lambda>(k, v) m. max (int k) m) ups m0 \<and>
   (\<forall>k \<in> fst ` set ups. int k \<le> fold (\<lambda>(k, v) m. max (int k) m) ups m0) \<and>
   (fold (\<lambda>(k, v) m. max (int k) m) ups m0 = m0 \<or>
    (\<exists>k \<in> fst ` set ups. fold (\<lambda>(k, v) m. max (int k) m) ups m0 = int k))"
proof (induction ups arbitrary: m0)
  case Nil
  show ?case by simp
next
  case (Cons p ups)
  obtain k v where p: "p = (k, v)" by (cases p)
  from Cons.IH[of "max (int k) m0"] show ?case
    unfolding p by (auto simp: max_def split: if_splits)
qed

text \<open>A payload that ends inside a skill id makes the read fail: nothing changes.\<close>

lemma hotbar_truncated:
  assumes "hotbar_slots (BitReader (drop 4 raw_data)) = None"
  shows "handle_hotbar_packet raw_data s = (Raised TruncatedPacket, s)"
  using hotbar_loop_truncated[OF assms, of 1 "[]"]
  by (simp add: handle_hotbar_packet_def Let_def)

text \<open>
  C8. The payload of a hotbar update is read as one changed flag per declared slot, each
  set flag followed by a 7-bit skill id (\<open>fl\<close> lists the declared slots). For a character
  of the save the handler runs to completion and writes the save; only \<open>activeAbilities\<close>
  changes. The stored list never shrinks, reaches every flagged index, and is longer than
  before only if its last index is a flagged one. Every flagged slot holds its decoded
  skill id; every other slot holds the value it held before, or 0 when it is new.
\<close>

theorem hotbar_frame:
  assumes ch: "find_char (current_character s) (player_data s) = Some ci"
      and dec: "hotbar_slots (BitReader (drop 4 raw_data)) = Some fl"
  shows "fst (handle_hotbar_packet raw_data s) = Completed \<and>
     (let s' = snd (handle_hotbar_packet raw_data s);
          active = activeAbilities (player_data s ! ci);
          active' = activeAbilities (player_data s' ! ci)
      in player_data s' = (player_data s)[ci := (player_data s ! ci)\<lparr>activeAbilities := active'\<rparr>] \<and>
         saved s' = saved s @ [player_data s'] \<and> sent s' = sent s \<and>
         length active \<le> length active' \<and>
         (\<forall>i < length fl. fl ! i \<noteq> None \<longrightarrow> i < length active') \<and>
         (length active < length active' \<longrightarrow>
            length active' - 1 < length fl \<and> fl ! (length active' - 1) \<noteq> None) \<and>
         (\<forall>i < length active'. active' ! i =
            (case (if i < length fl then fl ! i else None) of
               Some skill_id \<Rightarrow> skill_id
             | None \<Rightarrow> if i < length active then active ! i else 0)))"
proof -
  let ?c = "player_data s ! ci"
  let ?active = "activeAbilities ?c"
  from hotbar_loop_decodes[OF dec, of 0 "[]"] obtain updates where
        lp: "hotbar_loop (BitReader (drop 4 raw_data)) (Suc 0) [] = Inr updates"
    and du: "distinct (map fst updates)"
    and mu: "\<forall>i. map_of updates i = (if i < length fl \<and> fl ! i \<noteq> None then fl ! i else None)"
    by auto
  let ?mx = "fold (\<lambda>(k, v) m. max (int k) m) updates (- 1)"
  let ?a1 = "?active @ replicate (nat (?mx + 1) - length ?active) 0"
  let ?a2 = "fold (\<lambda>(idx, skill_id) a. a[idx := skill_id]) updates ?a1"
  have ci: "ci < length (player_data s)" using ch by (rule find_char_bound)
  have h: "handle_hotbar_packet raw_data s =
      (Completed, persist (with_char ci (?c\<lparr>activeAbilities := ?a2\<rparr>) s))"
    using ch lp by (simp add: handle_hotbar_packet_def Let_def)
  have a': "activeAbilities (player_data (snd (handle_hotbar_packet raw_data s)) ! ci) = ?a2"
    using ci by (simp add: h persist_def with_char_def)
  have l1: "length ?a1 = max (length ?active) (nat (?mx + 1))" by auto
  have l2: "length ?a2 = length ?a1" by (rule fold_update_length)
  note mk = max_key_bounds[of "- 1" updates]
  have keys: "\<And>k. map_of updates k \<noteq> None \<Longrightarrow> k < length ?a2"
  proof -
    fix k assume "map_of updates k \<noteq> None"
    then have "k \<in> fst ` set updates" by (simp add: map_of_eq_None_iff)
    with mk have "int k \<le> ?mx" by blast
    then show "k < length ?a2" unfolding l2 l1 by auto
  qed
  have flagged: "\<forall>i < length fl. fl ! i \<noteq> None \<longrightarrow> i < length ?a2"
    using keys mu by auto
  have grown: "length ?active < length ?a2 \<longrightarrow>
      length ?a2 - 1 < length fl \<and> fl ! (length ?a2 - 1) \<noteq> None"
  proof
    assume g: "length ?active < length ?a2"
    then have len: "length ?a2 = nat (?mx + 1)" and pos: "0 \<le> ?mx"
      unfolding l2 l1 by auto
    from pos mk obtain k where k: "k \<in> fst ` set updates" "?mx = int k" by auto
    from k(1) have "map_of updates k \<noteq> None" by (simp add: map_of_eq_None_iff)
    with mu have "k < length fl \<and> fl ! k \<noteq> None" by (auto split: if_splits)
    moreover from len k(2) have "length ?a2 - 1 = k" by simp
    ultimately show "length ?a2 - 1 < length fl \<and> fl ! (length ?a2 - 1) \<noteq> None" by simp
  qed
  have vals: "\<forall>i < length ?a2. ?a2 ! i =
      (case (if i < length fl then fl ! i else None) of
         Some skill_id \<Rightarrow> skill_id
       | None \<Rightarrow> if i < length ?active then ?active ! i else 0)"
  proof (intro allI impI)
    fix i assume i: "i < length ?a2"
    then have i1: "i < length ?a1" unfolding l2 .
    have old: "?a1 ! i = (if i < length ?active then ?active ! i else 0)"
      using i1 by (auto simp: nth_append)
    have m: "map_of updates i = (if i < length fl then fl ! i else None)"
      using mu by auto
    show "?a2 ! i =
      (case (if i < length fl then fl ! i else None) of
         Some skill_id \<Rightarrow> skill_id
       | None \<Rightarrow> if i < length ?active then ?active ! i else 0)"
      unfolding fold_update_nth[OF du i1] m old ..
  qed
  have le: "length ?active \<le> length ?a2" unfolding l2 l1 by simp
  have st: "player_data (snd (handle_hotbar_packet raw_data s)) =
              (player_data s)[ci := ?c\<lparr>activeAbilities := ?a2\<rparr>]"
           "saved (snd (handle_hotbar_packet raw_data s)) =
              saved s @ [player_data (snd (handle_hotbar_packet raw_data s))]"
           "sent (snd (handle_hotbar_packet raw_data s)) = sent s"
    by (simp_all add: h persist_def with_char_def)
  show ?thesis
    unfolding Let_def a'
    using st le flagged grown vals by (simp add: h)
qed

theorem hotbar_frame_witness:
  "hotbar_slots (BitReader (drop 4 [0, 189, 0, 3, 66, 160, 192])) =
     Some [None, Some 5, None, Some 3, None, None, None, None, None, None] \<and>
   handle_hotbar_packet [0, 189, 0, 3, 66, 160, 192] (solo (hero\<lparr>activeAbilities := [9, 9]\<rparr>)) =
     (Completed,
      \<lparr>player_data = [hero\<lparr>activeAbilities := [9, 5, 0, 3]\<rparr>],
       current_character = ''hero'',
       saved = [[hero\<lparr>activeAbilities := [9, 5, 0, 3]\<rparr>]],
       sent = []\<rparr>) \<and>
   activeAbilities (player_data (snd (handle_hotbar_packet [0, 189, 0, 3, 66, 160, 192]
       (solo (hero\<lparr>activeAbilities := [9, 9]\<rparr>)))) ! 0) ! 0 = 9"
proof -
  let ?s = "solo (hero\<lparr>activeAbilities := [9, 9]\<rparr>)"
  let ?raw = "[0, 189, 0, 3, 66, 160, 192] :: nat list"
  have ch: "find_char (current_character ?s) (player_data ?s) = Some 0"
    by (simp add: solo_def hero_def find_char_def)
  have bits: "BitReader (drop 4 ?raw) =
     [False, True, False, False, False, False, True, False,
      True, False, True, False, False, False, False, False,
      True, True, False, False, False, False, False, False]"
    by (simp add: BitReader_def bits_of_byte_def upt_rec[of _ "numeral _"])
  have dec: "hotbar_slots (BitReader (drop 4 ?raw)) =
     Some [None, Some 5, None, Some 3, None, None, None, None, None, None]"
    unfolding bits by (simp add: bits_value_def)
  have lp: "hotbar_loop (BitReader (drop 4 ?raw)) (Suc 0) [] = Inr [(1, 5), (3, 3)]"
    unfolding bits
    by (simp add: hotbar_loop_Nil hotbar_loop_False hotbar_loop_True bits_value_def)
  have lp': "hotbar_loop (BitReader [66, 160, 192]) (Suc 0) [] = Inr [(1, 5), (3, 3)]"
    using lp by simp
  have r2: "replicate 2 (0::int) = [0, 0]" by (simp add: numeral_2_eq_2)
  have u3: "[9, 5, 0, 0::int][3 := 3] = [9, 5, 0, 3]" by (simp add: numeral_3_eq_3)
  have ev: "handle_hotbar_packet ?raw ?s =
     (Completed,
      \<lparr>player_data = [hero\<lparr>activeAbilities := [9, 5, 0, 3]\<rparr>],
       current_character = ''hero'',
       saved = [[hero\<lparr>activeAbilities := [9, 5, 0, 3]\<rparr>]],
       sent = []\<rparr>)"
    by (simp add: handle_hotbar_packet_def lp' solo_def hero_def find_char_def
        Let_def persist_def with_char_def r2 u3)
  let ?A = "activeAbilities (player_data (snd (handle_hotbar_packet ?raw ?s)) ! 0)"
  let ?fl = "[None, Some 5, None, Some 3, None, None, None, None, None, None] :: int option list"
  note t = hotbar_frame[OF ch dec, unfolded Let_def]
  from t have le: "length (activeAbilities (player_data ?s ! 0)) \<le> length ?A"
    by blast
  from t have v: "\<forall>i < length ?A. ?A ! i =
      (case (if i < length ?fl then ?fl ! i else None) of
         Some skill_id \<Rightarrow> skill_id
       | None \<Rightarrow> if i < length (activeAbilities (player_data ?s ! 0))
                 then activeAbilities (player_data ?s ! 0) ! i else 0)"
    by blast
  have "length (activeAbilities (player_data ?s ! 0)) = 2" by (simp add: solo_def hero_def)
  with le have "0 < length ?A" by linarith
  with v have "?A ! 0 =
      (case (if 0 < length ?fl then ?fl ! 0 else None) of
         Some skill_id \<Rightarrow> skill_id
       | None \<Rightarrow> if 0 < length (activeAbilities (player_data ?s ! 0))
                 then activeAbilities (player_data ?s ! 0) ! 0 else 0)"
    by blast
  then have "?A ! 0 = 9" by (simp add: solo_def hero_def)
  with dec ev show ?thesis by simp
qed

end
